theory Spec2Isabelle
  imports Complex_Main "HOL-Library.Monad_Syntax"
begin

section \<open>Incremental 3D convex hull (quickhull3): data model\<close>

text \<open>
  The hull builder of \<^verbatim>\<open>quickhull3\<close> works on three kinds of objects that refer to each
  other: vertex nodes, half-edges and faces. An object reference is a natural number and
  each kind of object has a store (a function from references to records); \<open>undefined\<close>
  is \<open>None\<close>. Numbers are Lua doubles in the program; they are idealised as reals here:
  the rounding of the arithmetic, overflow and \<open>NaN\<close> are not modelled.
  A step that the program cannot carry out (indexing \<open>nil\<close>, arithmetic on \<open>nil\<close>)
  has the value \<open>None\<close>; so has a loop that runs out of the fuel it is given.
\<close>

type_synonym vec3 = "real \<times> real \<times> real"

text \<open>The program's constant \<^verbatim>\<open>EPSILON = 1e-12\<close> is the double nearest to \<open>10\<^sup>-\<^sup>1\<^sup>2\<close>.\<close>

definition EPSILON :: real where
  "EPSILON = 4951760157141521 / 2 ^ 92"

text \<open>Modelled from the spec: \<^verbatim>\<open>Number.EPSILON\<close>, the machine epsilon of a double; the module
  that declares it is not among the sources.\<close>

definition Number_EPSILON :: real where
  "Number_EPSILON = 1 / 2 ^ 52"

definition VISIBLE :: nat where
  "VISIBLE = 0"

definition DELETED :: nat where
  "DELETED = 1"

record VertexNode =
  index :: nat
  vprev :: "nat option"
  vnext :: "nat option"
  vface :: "nat option"

record HalfEdge =
  vertex :: nat
  eprev :: "nat option"
  enext :: "nat option"
  twin :: "nat option"
  eface :: nat

record Face =
  normal :: vec3
  midpoint :: vec3
  area :: real
  "constant" :: real
  outside :: "nat option"
  mark :: nat
  edge :: "nat option"

record VertexList =
  head :: "nat option"
  tail :: "nat option"

type_synonym vstore = "nat \<Rightarrow> VertexNode"

record HullState =
  points :: "real list"
  tolerance :: real
  faces :: "nat list"
  newFaces :: "nat list"
  assigned :: VertexList
  unassigned :: VertexList
  vertices :: "nat list"
  vnodes :: vstore
  hedges :: "nat \<Rightarrow> HalfEdge"
  fobjs :: "nat \<Rightarrow> Face"
  nhedges :: nat
  nfobjs :: nat

text \<open>\<open>vnodes\<close>, \<open>hedges\<close> and \<open>fobjs\<close> are the three object stores; \<open>nhedges\<close> and
  \<open>nfobjs\<close> count the half-edges and faces created so far, so that a new object gets a
  reference no other object has. \<open>faces\<close>, \<open>newFaces\<close> and \<open>vertices\<close> are the arrays
  of references the program keeps.\<close>

subsection \<open>Vertex nodes and vertex lists\<close>

definition createVertexNode :: "nat \<Rightarrow> VertexNode" where
  "createVertexNode i = \<lparr>index = i, vprev = None, vnext = None, vface = None\<rparr>"

definition createVertexList :: VertexList where
  "createVertexList = \<lparr>head = None, tail = None\<rparr>"

definition vertexListIsEmpty :: "VertexList \<Rightarrow> bool" where
  "vertexListIsEmpty l = (head l = None)"

definition vertexListClear :: "VertexList \<Rightarrow> VertexList" where
  "vertexListClear l = l\<lparr>head := None, tail := None\<rparr>"

definition set_vprev :: "vstore \<Rightarrow> nat \<Rightarrow> nat option \<Rightarrow> vstore" where
  "set_vprev h v x = h(v := (h v)\<lparr>vprev := x\<rparr>)"

definition set_vnext :: "vstore \<Rightarrow> nat \<Rightarrow> nat option \<Rightarrow> vstore" where
  "set_vnext h v x = h(v := (h v)\<lparr>vnext := x\<rparr>)"

definition vertexListAppend :: "VertexList \<Rightarrow> nat \<Rightarrow> vstore \<Rightarrow> (VertexList \<times> vstore) option" where
  "vertexListAppend l v h = do {
     (l1, h1) \<leftarrow> (if head l = None then Some (l\<lparr>head := Some v\<rparr>, h)
                  else do { t \<leftarrow> tail l; Some (l, set_vnext h t (Some v)) });
     let h2 = set_vprev h1 v (tail l1);
     let h3 = set_vnext h2 v None;
     Some (l1\<lparr>tail := Some v\<rparr>, h3)
   }"

text \<open>The walk to the end of the chain: \<open>k\<close> bounds the number of steps.\<close>

fun chainEnd :: "nat \<Rightarrow> vstore \<Rightarrow> nat \<Rightarrow> nat option" where
  "chainEnd 0 h current = None"
| "chainEnd (Suc k) h current =
     (case vnext (h current) of None \<Rightarrow> Some current | Some n \<Rightarrow> chainEnd k h n)"

definition vertexListAppendChain ::
  "nat \<Rightarrow> VertexList \<Rightarrow> nat \<Rightarrow> vstore \<Rightarrow> (VertexList \<times> vstore) option" where
  "vertexListAppendChain k l v h = do {
     (l1, h1) \<leftarrow> (if head l = None then Some (l\<lparr>head := Some v\<rparr>, h)
                  else do { t \<leftarrow> tail l; Some (l, set_vnext h t (Some v)) });
     let h2 = set_vprev h1 v (tail l1);
     current \<leftarrow> chainEnd k h2 v;
     Some (l1\<lparr>tail := Some current\<rparr>, h2)
   }"

definition vertexListInsertBefore ::
  "VertexList \<Rightarrow> nat \<Rightarrow> nat \<Rightarrow> vstore \<Rightarrow> VertexList \<times> vstore" where
  "vertexListInsertBefore l target v h =
     (let h1 = set_vprev h v (vprev (h target));
          h2 = set_vnext h1 v (Some target);
          (l3, h3) = (case vprev (h2 v) of
                        None \<Rightarrow> (l\<lparr>head := Some v\<rparr>, h2)
                      | Some p \<Rightarrow> (l, set_vnext h2 p (Some v)))
      in (l3, set_vprev h3 target (Some v)))"

definition vertexListRemove :: "VertexList \<Rightarrow> nat \<Rightarrow> vstore \<Rightarrow> VertexList \<times> vstore" where
  "vertexListRemove l v h =
     (let (l1, h1) = (case vprev (h v) of
                        None \<Rightarrow> (l\<lparr>head := vnext (h v)\<rparr>, h)
                      | Some p \<Rightarrow> (l, set_vnext h p (vnext (h v))))
      in (case vnext (h1 v) of
            None \<Rightarrow> (l1\<lparr>tail := vprev (h1 v)\<rparr>, h1)
          | Some n \<Rightarrow> (l1, set_vprev h1 n (vprev (h1 v)))))"

definition vertexListRemoveSubList ::
  "VertexList \<Rightarrow> nat \<Rightarrow> nat \<Rightarrow> vstore \<Rightarrow> VertexList \<times> vstore" where
  "vertexListRemoveSubList l a b h =
     (let (l1, h1) = (case vprev (h a) of
                        None \<Rightarrow> (l\<lparr>head := vnext (h b)\<rparr>, h)
                      | Some p \<Rightarrow> (l, set_vnext h p (vnext (h b))))
      in (case vnext (h1 b) of
            None \<Rightarrow> (l1\<lparr>tail := vprev (h1 a)\<rparr>, h1)
          | Some n \<Rightarrow> (l1, set_vprev h1 n (vprev (h1 a)))))"

subsection \<open>Point storage and the geometry kernel\<close>

text \<open>\<open>points[i]\<close>: reading past the end of the array gives \<open>nil\<close>, and every use the
  program makes of such a value (arithmetic, comparison) fails.\<close>

definition coord :: "real list \<Rightarrow> nat \<Rightarrow> real option" where
  "coord pts i = (if i < length pts then Some (pts ! i) else None)"

definition point3 :: "real list \<Rightarrow> nat \<Rightarrow> vec3 option" where
  "point3 pts v = do {
     x \<leftarrow> coord pts (v * 3);
     y \<leftarrow> coord pts (v * 3 + 1);
     z \<leftarrow> coord pts (v * 3 + 2);
     Some (x, y, z)
   }"

definition computePlane :: "real list \<Rightarrow> nat \<Rightarrow> nat \<Rightarrow> nat \<Rightarrow> (vec3 \<times> real) option" where
  "computePlane pts v0 v1 v2 = do {
     (p0x, p0y, p0z) \<leftarrow> point3 pts v0;
     (p1x, p1y, p1z) \<leftarrow> point3 pts v1;
     (p2x, p2y, p2z) \<leftarrow> point3 pts v2;
     let e1x = p1x - p0x; let e1y = p1y - p0y; let e1z = p1z - p0z;
     let e2x = p2x - p0x; let e2y = p2y - p0y; let e2z = p2z - p0z;
     let nx = e1y * e2z - e1z * e2y;
     let ny = e1z * e2x - e1x * e2z;
     let nz = e1x * e2y - e1y * e2x;
     let len = sqrt (nx * nx + ny * ny + nz * nz);
     (if len < EPSILON then Some ((0, 0, 1), 0)
      else (let invLen = 1 / len;
                o0 = nx * invLen; o1 = ny * invLen; o2 = nz * invLen
            in Some ((o0, o1, o2), - (o0 * p0x + o1 * p0y + o2 * p0z))))
   }"

definition distanceToPlane :: "real list \<Rightarrow> nat \<Rightarrow> vec3 \<Rightarrow> real \<Rightarrow> real option" where
  "distanceToPlane pts idx nrm offset = do {
     (x, y, z) \<leftarrow> point3 pts idx;
     let (n0, n1, n2) = nrm;
     Some (n0 * x + n1 * y + n2 * z + offset)
   }"

definition distanceToLineSquared :: "real list \<Rightarrow> nat \<Rightarrow> nat \<Rightarrow> nat \<Rightarrow> real option" where
  "distanceToLineSquared pts idx v0 v1 = do {
     (px, py, pz) \<leftarrow> point3 pts idx;
     (ax, ay, az) \<leftarrow> point3 pts v0;
     (bx, by, bz) \<leftarrow> point3 pts v1;
     let apx = px - ax; let apy = py - ay; let apz = pz - az;
     let abx = bx - ax; let aby = by - ay; let abz = bz - az;
     let cx = apy * abz - apz * aby;
     let cy = apz * abx - apx * abz;
     let cz = apx * aby - apy * abx;
     let crossLenSq = cx * cx + cy * cy + cz * cz;
     let abLenSq = abx * abx + aby * aby + abz * abz;
     (if abLenSq < EPSILON then Some (apx * apx + apy * apy + apz * apz)
      else Some (crossLenSq / abLenSq))
   }"

subsection \<open>Half-edges and faces\<close>

definition createHalfEdge :: "nat \<Rightarrow> nat \<Rightarrow> HalfEdge" where
  "createHalfEdge v f = \<lparr>vertex = v, eprev = None, enext = None, twin = None, eface = f\<rparr>"

definition halfEdgeHead :: "HalfEdge \<Rightarrow> nat" where
  "halfEdgeHead e = vertex e"

definition halfEdgeTail :: "(nat \<Rightarrow> HalfEdge) \<Rightarrow> HalfEdge \<Rightarrow> nat option" where
  "halfEdgeTail hs e = (case eprev e of None \<Rightarrow> None | Some p \<Rightarrow> Some (vertex (hs p)))"

definition halfEdgeSetTwin :: "(nat \<Rightarrow> HalfEdge) \<Rightarrow> nat \<Rightarrow> nat \<Rightarrow> (nat \<Rightarrow> HalfEdge)" where
  "halfEdgeSetTwin hs e t =
     (let hs1 = hs(e := (hs e)\<lparr>twin := Some t\<rparr>)
      in hs1(t := (hs1 t)\<lparr>twin := Some e\<rparr>))"

definition createFace :: Face where
  "createFace = \<lparr>normal = (0, 0, 0), midpoint = (0, 0, 0), area = 0, constant = 0,
                 outside = None, mark = VISIBLE, edge = None\<rparr>"

definition set_enext :: "(nat \<Rightarrow> HalfEdge) \<Rightarrow> nat \<Rightarrow> nat \<Rightarrow> (nat \<Rightarrow> HalfEdge)" where
  "set_enext hs e x = hs(e := (hs e)\<lparr>enext := Some x\<rparr>)"

definition set_eprev :: "(nat \<Rightarrow> HalfEdge) \<Rightarrow> nat \<Rightarrow> nat \<Rightarrow> (nat \<Rightarrow> HalfEdge)" where
  "set_eprev hs e x = hs(e := (hs e)\<lparr>eprev := Some x\<rparr>)"

text \<open>\<open>faceCreate\<close> makes one face and three half-edges: the new face gets the
  reference \<open>nfobjs\<close>, the half-edges get \<open>nhedges\<close>, \<open>nhedges + 1\<close> and
  \<open>nhedges + 2\<close>.\<close>

definition faceCreate :: "nat \<Rightarrow> nat \<Rightarrow> nat \<Rightarrow> HullState \<Rightarrow> nat \<times> HullState" where
  "faceCreate a b c st =
     (let f = nfobjs st;
          e0 = nhedges st; e1 = nhedges st + 1; e2 = nhedges st + 2;
          hs0 = (hedges st)(e0 := createHalfEdge a f, e1 := createHalfEdge b f,
                            e2 := createHalfEdge c f);
          hs1 = set_eprev (set_enext hs0 e0 e1) e0 e2;
          hs2 = set_eprev (set_enext hs1 e1 e2) e1 e0;
          hs3 = set_eprev (set_enext hs2 e2 e0) e2 e1
      in (f, st\<lparr>hedges := hs3,
                fobjs := (fobjs st)(f := createFace\<lparr>edge := Some e0\<rparr>),
                nhedges := nhedges st + 3,
                nfobjs := nfobjs st + 1\<rparr>))"

fun walkNext :: "nat \<Rightarrow> (nat \<Rightarrow> HalfEdge) \<Rightarrow> nat \<Rightarrow> nat option" where
  "walkNext 0 hs e = Some e"
| "walkNext (Suc i) hs e = (case enext (hs e) of None \<Rightarrow> None | Some x \<Rightarrow> walkNext i hs x)"

fun walkPrev :: "nat \<Rightarrow> (nat \<Rightarrow> HalfEdge) \<Rightarrow> nat \<Rightarrow> nat option" where
  "walkPrev 0 hs e = Some e"
| "walkPrev (Suc i) hs e = (case eprev (hs e) of None \<Rightarrow> None | Some x \<Rightarrow> walkPrev i hs x)"

text \<open>\<open>faceGetEdge\<close>: the result \<open>None\<close> is the program's \<open>undefined\<close>; every caller
  asserts the result and uses it at once, so it fails there.\<close>

definition faceGetEdge :: "HullState \<Rightarrow> nat \<Rightarrow> int \<Rightarrow> nat option" where
  "faceGetEdge st f i =
     (case edge (fobjs st f) of
        None \<Rightarrow> None
      | Some e \<Rightarrow> (if i > 0 then walkNext (nat i) (hedges st) e
                   else walkPrev (nat (- i)) (hedges st) e))"

definition faceCompute :: "nat \<Rightarrow> real list \<Rightarrow> HullState \<Rightarrow> HullState option" where
  "faceCompute f pts st = do {
     e \<leftarrow> edge (fobjs st f);
     a \<leftarrow> halfEdgeTail (hedges st) (hedges st e);
     let b = halfEdgeHead (hedges st e);
     en \<leftarrow> enext (hedges st e);
     let c = halfEdgeHead (hedges st en);
     (ax, ay, az) \<leftarrow> point3 pts (index (vnodes st a));
     (bx, by, bz) \<leftarrow> point3 pts (index (vnodes st b));
     (cx, cy, cz) \<leftarrow> point3 pts (index (vnodes st c));
     let e1x = bx - ax; let e1y = by - ay; let e1z = bz - az;
     let e2x = cx - ax; let e2y = cy - ay; let e2z = cz - az;
     let nx = e1y * e2z - e1z * e2y;
     let ny = e1z * e2x - e1x * e2z;
     let nz = e1x * e2y - e1y * e2x;
     let len = sqrt (nx * nx + ny * ny + nz * nz);
     let nrm = (if len > EPSILON then (nx / len, ny / len, nz / len) else normal (fobjs st f));
     let mid = ((ax + bx + cx) / 3, (ay + by + cy) / 3, (az + bz + cz) / 3);
     let (n0, n1, n2) = nrm;
     let (m0, m1, m2) = mid;
     Some (st\<lparr>fobjs := (fobjs st)(f := (fobjs st f)\<lparr>normal := nrm, midpoint := mid,
              area := len / 2, constant := n0 * m0 + n1 * m1 + n2 * m2\<rparr>)\<rparr>)
   }"

definition faceDistanceToPoint :: "Face \<Rightarrow> real list \<Rightarrow> nat \<Rightarrow> real option" where
  "faceDistanceToPoint fc pts vertexIndex = do {
     (x, y, z) \<leftarrow> point3 pts vertexIndex;
     let (n0, n1, n2) = normal fc;
     Some (n0 * x + n1 * y + n2 * z - constant fc)
   }"

subsection \<open>Hull state and the initial tetrahedron\<close>

fun foldM :: "('a \<Rightarrow> 's \<Rightarrow> 's option) \<Rightarrow> 'a list \<Rightarrow> 's \<Rightarrow> 's option" where
  "foldM f [] s = Some s"
| "foldM f (x # xs) s = (case f x s of None \<Rightarrow> None | Some s' \<Rightarrow> foldM f xs s')"

text \<open>\<open>createHullState\<close>: the program counts \<open>i\<close> from 0 while \<open>i < n\<close>, with
  \<open>n\<close> the array length divided by 3 (not rounded).\<close>

definition createHullState :: "real list \<Rightarrow> real \<Rightarrow> HullState" where
  "createHullState pts n =
     \<lparr>points = pts, tolerance = - 1, faces = [], newFaces = [],
      assigned = createVertexList, unassigned = createVertexList,
      vertices = [0 ..< nat \<lceil>n\<rceil>], vnodes = createVertexNode,
      hedges = (\<lambda>_. createHalfEdge 0 0), fobjs = (\<lambda>_. createFace),
      nhedges = 0, nfobjs = 0\<rparr>"

definition extremesAxis ::
  "real list \<Rightarrow> nat \<Rightarrow> nat \<Rightarrow> nat \<Rightarrow> real list \<times> real list \<times> nat list \<times> nat list
     \<Rightarrow> (real list \<times> real list \<times> nat list \<times> nat list) option" where
  "extremesAxis pts v idx j acc =
     (case acc of (mn, mx, mnV, mxV) \<Rightarrow> do {
        val \<leftarrow> coord pts (idx + j);
        let (mn1, mnV1) = (if val < mn ! j then (mn[j := val], mnV[j := v]) else (mn, mnV));
        let (mx1, mxV1) = (if val > mx ! j then (mx[j := val], mxV[j := v]) else (mx, mxV));
        Some (mn1, mx1, mnV1, mxV1)
      })"

definition extremesVertex ::
  "real list \<Rightarrow> vstore \<Rightarrow> nat \<Rightarrow> real list \<times> real list \<times> nat list \<times> nat list
     \<Rightarrow> (real list \<times> real list \<times> nat list \<times> nat list) option" where
  "extremesVertex pts vs v acc = foldM (extremesAxis pts v (index (vs v) * 3)) [0, 1, 2] acc"

text \<open>\<open>computeExtremes\<close> returns the state with its tolerance set, and the arrays
  \<open>min\<close> and \<open>max\<close> of extreme vertices. With no vertex at all the program leaves
  \<open>nil\<close> in both arrays and its caller fails on them; the model fails here.\<close>

definition computeExtremes :: "HullState \<Rightarrow> (HullState \<times> nat list \<times> nat list) option" where
  "computeExtremes st = do {
     v0 \<leftarrow> (case vertices st of [] \<Rightarrow> None | v # _ \<Rightarrow> Some v);
     c0 \<leftarrow> coord (points st) 0;
     c1 \<leftarrow> coord (points st) 1;
     c2 \<leftarrow> coord (points st) 2;
     (mn, mx, mnV, mxV) \<leftarrow> foldM (extremesVertex (points st) (vnodes st)) (vertices st)
        ([c0, c1, c2], [c0, c1, c2], [v0, v0, v0], [v0, v0, v0]);
     Some (st\<lparr>tolerance := 3 * Number_EPSILON *
              (max (abs (mn ! 0)) (abs (mx ! 0)) + max (abs (mn ! 1)) (abs (mx ! 1)) +
               max (abs (mn ! 2)) (abs (mx ! 2)))\<rparr>,
           mnV, mxV)
   }"

definition separationStep ::
  "real list \<Rightarrow> vstore \<Rightarrow> nat list \<Rightarrow> nat list \<Rightarrow> nat \<Rightarrow> real \<times> nat \<Rightarrow> (real \<times> nat) option" where
  "separationStep pts vs mn mx i acc =
     (case acc of (maxDistance, idx) \<Rightarrow> do {
        a \<leftarrow> coord pts (index (vs (mn ! i)) * 3 + i);
        b \<leftarrow> coord pts (index (vs (mx ! i)) * 3 + i);
        let distance = a - b;
        Some (if abs distance > maxDistance then (abs distance, i) else (maxDistance, idx))
      })"

definition lineStep ::
  "real list \<Rightarrow> vstore \<Rightarrow> nat \<Rightarrow> nat \<Rightarrow> nat \<Rightarrow> real \<times> nat option \<Rightarrow> (real \<times> nat option) option" where
  "lineStep pts vs v0 v1 v acc =
     (case acc of (maxDistance, v2) \<Rightarrow>
        if v \<noteq> v0 \<and> v \<noteq> v1 then do {
          dist \<leftarrow> distanceToLineSquared pts (index (vs v)) (index (vs v0)) (index (vs v1));
          Some (if dist > maxDistance then (dist, Some v) else (maxDistance, v2))
        } else Some acc)"

definition planeStep ::
  "real list \<Rightarrow> vstore \<Rightarrow> nat \<Rightarrow> nat \<Rightarrow> nat \<Rightarrow> vec3 \<Rightarrow> real \<Rightarrow> nat
     \<Rightarrow> real \<times> nat option \<Rightarrow> (real \<times> nat option) option" where
  "planeStep pts vs v0 v1 v2 nrm offset v acc =
     (case acc of (maxDistance, v3) \<Rightarrow>
        if v \<noteq> v0 \<and> v \<noteq> v1 \<and> v \<noteq> v2 then do {
          d \<leftarrow> distanceToPlane pts (index (vs v)) nrm offset;
          let dist = abs d;
          Some (if dist > maxDistance then (dist, Some v) else (maxDistance, v3))
        } else Some acc)"

definition setTwinEdges :: "HullState \<Rightarrow> nat option \<Rightarrow> nat option \<Rightarrow> HullState option" where
  "setTwinEdges st a b = do {
     e \<leftarrow> a;
     t \<leftarrow> b;
     Some (st\<lparr>hedges := halfEdgeSetTwin (hedges st) e t\<rparr>)
   }"

definition twinStepOutward :: "nat list \<Rightarrow> nat \<Rightarrow> HullState \<Rightarrow> HullState option" where
  "twinStepOutward fs i st = do {
     let j = (i + 1) mod 3;
     st1 \<leftarrow> setTwinEdges st (faceGetEdge st (fs ! (i + 1)) 2) (faceGetEdge st (fs ! 0) (int j));
     setTwinEdges st1 (faceGetEdge st1 (fs ! (i + 1)) 1) (faceGetEdge st1 (fs ! (j + 1)) 0)
   }"

definition twinStepInward :: "nat list \<Rightarrow> nat \<Rightarrow> HullState \<Rightarrow> HullState option" where
  "twinStepInward fs i st = do {
     let j = (i + 1) mod 3;
     st1 \<leftarrow> setTwinEdges st (faceGetEdge st (fs ! (i + 1)) 2)
              (faceGetEdge st (fs ! 0) (int ((3 - i) mod 3)));
     setTwinEdges st1 (faceGetEdge st1 (fs ! (i + 1)) 0) (faceGetEdge st1 (fs ! (j + 1)) 1)
   }"

definition addFaceToHull :: "nat \<Rightarrow> HullState \<Rightarrow> HullState option" where
  "addFaceToHull f st = do {
     st1 \<leftarrow> faceCompute f (points st) st;
     Some (st1\<lparr>faces := faces st1 @ [f]\<rparr>)
   }"

definition addVertexToFace :: "HullState \<Rightarrow> nat \<Rightarrow> nat \<Rightarrow> HullState option" where
  "addVertexToFace st v f = do {
     let st1 = st\<lparr>vnodes := (vnodes st)(v := (vnodes st v)\<lparr>vface := Some f\<rparr>)\<rparr>;
     (l, h) \<leftarrow> (case outside (fobjs st1 f) of
                 None \<Rightarrow> vertexListAppend (assigned st1) v (vnodes st1)
               | Some out \<Rightarrow> Some (vertexListInsertBefore (assigned st1) out v (vnodes st1)));
     Some (st1\<lparr>assigned := l, vnodes := h,
               fobjs := (fobjs st1)(f := (fobjs st1 f)\<lparr>outside := Some v\<rparr>)\<rparr>)
   }"

text \<open>The scan of the initial assignment: the face of greatest distance above the
  running maximum, which starts at the tolerance.\<close>

definition maxFaceStep ::
  "HullState \<Rightarrow> nat \<Rightarrow> nat \<Rightarrow> real \<times> nat option \<Rightarrow> (real \<times> nat option) option" where
  "maxFaceStep st v f acc =
     (case acc of (maxDistance, maxFace) \<Rightarrow> do {
        distance \<leftarrow> faceDistanceToPoint (fobjs st f) (points st) (index (vnodes st v));
        Some (if distance > maxDistance then (distance, Some f) else (maxDistance, maxFace))
      })"

definition assignStep :: "nat \<Rightarrow> nat \<Rightarrow> nat \<Rightarrow> nat \<Rightarrow> nat \<Rightarrow> HullState \<Rightarrow> HullState option" where
  "assignStep v0 v1 v2 v3 v st =
     (if v \<noteq> v0 \<and> v \<noteq> v1 \<and> v \<noteq> v2 \<and> v \<noteq> v3 then do {
        (maxDistance, maxFace) \<leftarrow> foldM (maxFaceStep st v) (faces st) (tolerance st, None);
        (case maxFace of None \<Rightarrow> Some st | Some f \<Rightarrow> addVertexToFace st v f)
      } else Some st)"

text \<open>The block of \<open>computeInitialHull\<close> that creates the four faces of the initial
  tetrahedron and sets their twin edges; \<open>outward\<close> is the test
  \<open>distanceToPlane(..., v3, ...) < 0\<close>. It gives the local array \<open>faces\<close>.\<close>

definition initialTetrahedron ::
  "bool \<Rightarrow> nat \<Rightarrow> nat \<Rightarrow> nat \<Rightarrow> nat \<Rightarrow> HullState \<Rightarrow> (nat list \<times> HullState) option" where
  "initialTetrahedron outward v0 v1 v2 v3 st =
     (if outward then do {
        let (f0, st1) = faceCreate v0 v1 v2 st;
        let (f1, st2) = faceCreate v3 v1 v0 st1;
        let (f2, st3) = faceCreate v3 v2 v1 st2;
        let (f3, st4) = faceCreate v3 v0 v2 st3;
        st5 \<leftarrow> foldM (twinStepOutward [f0, f1, f2, f3]) [0, 1, 2] st4;
        Some ([f0, f1, f2, f3], st5)
      } else do {
        let (f0, st1) = faceCreate v0 v2 v1 st;
        let (f1, st2) = faceCreate v3 v0 v1 st1;
        let (f2, st3) = faceCreate v3 v1 v2 st2;
        let (f3, st4) = faceCreate v3 v2 v0 st3;
        st5 \<leftarrow> foldM (twinStepInward [f0, f1, f2, f3]) [0, 1, 2] st4;
        Some ([f0, f1, f2, f3], st5)
      })"

definition computeInitialHull :: "HullState \<Rightarrow> HullState option" where
  "computeInitialHull st0 = do {
     (st, mn, mx) \<leftarrow> computeExtremes st0;
     (maxDistance, idx) \<leftarrow>
        foldM (separationStep (points st) (vnodes st) mn mx) [0, 1, 2] (0, 0);
     let v0 = mn ! idx;
     let v1 = mx ! idx;
     (maxDistance, v2o) \<leftarrow>
        foldM (lineStep (points st) (vnodes st) v0 v1) (vertices st) (0, None);
     (case v2o of
        None \<Rightarrow> Some st
      | Some v2 \<Rightarrow> do {
          (nrm, offset) \<leftarrow> computePlane (points st) (index (vnodes st v0))
                             (index (vnodes st v1)) (index (vnodes st v2));
          (maxDistance, v3o) \<leftarrow>
             foldM (planeStep (points st) (vnodes st) v0 v1 v2 nrm offset) (vertices st) (- 1, None);
          (case v3o of
             None \<Rightarrow> Some st
           | Some v3 \<Rightarrow> do {
               d \<leftarrow> distanceToPlane (points st) (index (vnodes st v3)) nrm offset;
               (fs, st5) \<leftarrow> initialTetrahedron (d < 0) v0 v1 v2 v3 st;
               st6 \<leftarrow> foldM addFaceToHull fs st5;
               foldM (assignStep v0 v1 v2 v3) (vertices st6) st6
             })
        })
   }"

subsection \<open>Conflict lists of the faces\<close>

definition removeVertexFromFace :: "HullState \<Rightarrow> nat \<Rightarrow> nat \<Rightarrow> HullState" where
  "removeVertexFromFace st v f =
     (let st1 = (if Some v = outside (fobjs st f) then
                   (if (case vnext (vnodes st v) of None \<Rightarrow> False
                        | Some n \<Rightarrow> vface (vnodes st n) = Some f)
                    then st\<lparr>fobjs := (fobjs st)(f := (fobjs st f)\<lparr>outside := vnext (vnodes st v)\<rparr>)\<rparr>
                    else st\<lparr>fobjs := (fobjs st)(f := (fobjs st f)\<lparr>outside := None\<rparr>)\<rparr>)
                 else st);
          (l, h) = vertexListRemove (assigned st1) v (vnodes st1)
      in st1\<lparr>assigned := l, vnodes := h\<rparr>)"

text \<open>The last vertex of the run of vertices of face \<open>f\<close> that starts at \<open>e\<close>.\<close>

fun runEnd :: "nat \<Rightarrow> vstore \<Rightarrow> nat \<Rightarrow> nat \<Rightarrow> nat option" where
  "runEnd 0 h f e = None"
| "runEnd (Suc k) h f e =
     (case vnext (h e) of
        None \<Rightarrow> Some e
      | Some n \<Rightarrow> (if vface (h n) = Some f then runEnd k h f n else Some e))"

definition removeAllVerticesFromFace ::
  "nat \<Rightarrow> HullState \<Rightarrow> nat \<Rightarrow> (HullState \<times> nat option) option" where
  "removeAllVerticesFromFace k st f =
     (case outside (fobjs st f) of
        None \<Rightarrow> Some (st, None)
      | Some start \<Rightarrow> do {
          end' \<leftarrow> runEnd k (vnodes st) f start;
          let (l, h) = vertexListRemoveSubList (assigned st) start end' (vnodes st);
          let h1 = set_vprev h start None;
          let h2 = set_vnext h1 end' None;
          Some (st\<lparr>assigned := l, vnodes := h2,
                    fobjs := (fobjs st)(f := (fobjs st f)\<lparr>outside := None\<rparr>)\<rparr>, Some start)
        })"

definition appendUnassigned :: "HullState \<Rightarrow> nat \<Rightarrow> HullState option" where
  "appendUnassigned st v = do {
     (l, h) \<leftarrow> vertexListAppend (unassigned st) v (vnodes st);
     Some (st\<lparr>unassigned := l, vnodes := h\<rparr>)
   }"

fun absorbLoop :: "nat \<Rightarrow> HullState \<Rightarrow> nat \<Rightarrow> nat option \<Rightarrow> HullState option" where
  "absorbLoop k st af None = Some st"
| "absorbLoop 0 st af (Some v) = None"
| "absorbLoop (Suc k) st af (Some v) =
     (let nextVertex = vnext (vnodes st v) in
      case faceDistanceToPoint (fobjs st af) (points st) (index (vnodes st v)) of
        None \<Rightarrow> None
      | Some distance \<Rightarrow>
          (case (if distance > tolerance st then addVertexToFace st v af
                 else appendUnassigned st v) of
             None \<Rightarrow> None
           | Some st1 \<Rightarrow> absorbLoop k st1 af nextVertex))"

definition deleteFaceVertices :: "nat \<Rightarrow> HullState \<Rightarrow> nat \<Rightarrow> nat option \<Rightarrow> HullState option" where
  "deleteFaceVertices k st f absorbingFace = do {
     (st1, faceVertices) \<leftarrow> removeAllVerticesFromFace k st f;
     (case faceVertices of
        None \<Rightarrow> Some st1
      | Some v \<Rightarrow>
          (case absorbingFace of
             None \<Rightarrow> do {
               (l, h) \<leftarrow> vertexListAppendChain k (unassigned st1) v (vnodes st1);
               Some (st1\<lparr>unassigned := l, vnodes := h\<rparr>)
             }
           | Some af \<Rightarrow> absorbLoop k st1 af (Some v)))
   }"

text \<open>The scan of re-triage over the new faces, with its early exit.\<close>

fun resolveScan ::
  "HullState \<Rightarrow> nat \<Rightarrow> nat list \<Rightarrow> real \<times> nat option \<Rightarrow> (real \<times> nat option) option" where
  "resolveScan st v [] acc = Some acc"
| "resolveScan st v (f # fs) (maxDistance, maxFace) =
     (if mark (fobjs st f) = VISIBLE then
        (case faceDistanceToPoint (fobjs st f) (points st) (index (vnodes st v)) of
           None \<Rightarrow> None
         | Some distance \<Rightarrow>
             (let (md, mf) = (if distance > maxDistance then (distance, Some f)
                              else (maxDistance, maxFace))
              in if md > 1000 * tolerance st then Some (md, mf)
                 else resolveScan st v fs (md, mf)))
      else resolveScan st v fs (maxDistance, maxFace))"

fun resolveLoop :: "nat \<Rightarrow> HullState \<Rightarrow> nat list \<Rightarrow> nat option \<Rightarrow> HullState option" where
  "resolveLoop k st nf None = Some st"
| "resolveLoop 0 st nf (Some v) = None"
| "resolveLoop (Suc k) st nf (Some v) =
     (let nextVertex = vnext (vnodes st v) in
      case resolveScan st v nf (tolerance st, None) of
        None \<Rightarrow> None
      | Some (maxDistance, maxFace) \<Rightarrow>
          (case (case maxFace of None \<Rightarrow> Some st | Some f \<Rightarrow> addVertexToFace st v f) of
             None \<Rightarrow> None
           | Some st1 \<Rightarrow> resolveLoop k st1 nf nextVertex))"

definition resolveUnassignedPoints :: "nat \<Rightarrow> HullState \<Rightarrow> nat list \<Rightarrow> HullState option" where
  "resolveUnassignedPoints k st nf =
     (if vertexListIsEmpty (unassigned st) then Some st
      else resolveLoop k st nf (head (unassigned st)))"

subsection \<open>The insertion loop\<close>

fun eyeLoop :: "nat \<Rightarrow> HullState \<Rightarrow> nat \<Rightarrow> nat option \<Rightarrow> nat option \<times> real \<Rightarrow> nat option option" where
  "eyeLoop k st f None (eyeVertex, maxDistance) = Some eyeVertex"
| "eyeLoop 0 st f (Some v) (eyeVertex, maxDistance) = None"
| "eyeLoop (Suc k) st f (Some v) (eyeVertex, maxDistance) =
     (if vface (vnodes st v) = Some f then
        (case faceDistanceToPoint (fobjs st f) (points st) (index (vnodes st v)) of
           None \<Rightarrow> None
         | Some distance \<Rightarrow>
             eyeLoop k st f (vnext (vnodes st v))
               (if distance > maxDistance then (Some v, distance) else (eyeVertex, maxDistance)))
      else Some eyeVertex)"

text \<open>\<open>nextVertexToAdd\<close>: \<open>Some None\<close> is the result \<open>undefined\<close>.\<close>

definition nextVertexToAdd :: "nat \<Rightarrow> HullState \<Rightarrow> nat option option" where
  "nextVertexToAdd k st =
     (if vertexListIsEmpty (assigned st) then Some None
      else do {
        h \<leftarrow> head (assigned st);
        eyeFace \<leftarrow> vface (vnodes st h);
        eyeLoop k st eyeFace (outside (fobjs st eyeFace)) (None, 0)
      })"

text \<open>\<open>computeHorizon\<close> calls itself across twin edges; \<open>horizonLoop\<close> is its
  \<open>do ... while\<close> loop over the edges of one face. The first argument bounds the depth
  of both, the second is the fuel of the list loops inside.\<close>

fun computeHorizon ::
  "nat \<Rightarrow> nat \<Rightarrow> HullState \<Rightarrow> nat \<Rightarrow> nat option \<Rightarrow> nat \<Rightarrow> nat list \<Rightarrow> (HullState \<times> nat list) option"
and horizonLoop ::
  "nat \<Rightarrow> nat \<Rightarrow> HullState \<Rightarrow> nat \<Rightarrow> nat \<Rightarrow> nat \<Rightarrow> nat list \<Rightarrow> (HullState \<times> nat list) option"
where
  "computeHorizon 0 n st eyePoint crossEdge f horizon = None"
| "computeHorizon (Suc k) n st eyePoint crossEdge f horizon =
     (case deleteFaceVertices n st f None of
        None \<Rightarrow> None
      | Some st1 \<Rightarrow>
          (let st2 = st1\<lparr>fobjs := (fobjs st1)(f := (fobjs st1 f)\<lparr>mark := DELETED\<rparr>)\<rparr> in
           case (case crossEdge of None \<Rightarrow> faceGetEdge st2 f 0
                 | Some ce \<Rightarrow> enext (hedges st2 ce)) of
             None \<Rightarrow> None
           | Some e \<Rightarrow> horizonLoop k n st2 eyePoint e e horizon))"
| "horizonLoop 0 n st eyePoint e startEdge horizon = None"
| "horizonLoop (Suc k) n st eyePoint e startEdge horizon =
     (case twin (hedges st e) of
        None \<Rightarrow> None
      | Some twinEdge \<Rightarrow>
          (let oppositeFace = eface (hedges st twinEdge) in
           case (if mark (fobjs st oppositeFace) = VISIBLE then
                   (case faceDistanceToPoint (fobjs st oppositeFace) (points st) eyePoint of
                      None \<Rightarrow> None
                    | Some d \<Rightarrow>
                        (if d > tolerance st
                         then computeHorizon k n st eyePoint (Some twinEdge) oppositeFace horizon
                         else Some (st, horizon @ [e])))
                 else Some (st, horizon)) of
             None \<Rightarrow> None
           | Some (st1, horizon1) \<Rightarrow>
               (case enext (hedges st1 e) of
                  None \<Rightarrow> None
                | Some e1 \<Rightarrow>
                    (if e1 \<noteq> startEdge then horizonLoop k n st1 eyePoint e1 startEdge horizon1
                     else Some (st1, horizon1)))))"

definition addAdjoiningFace :: "HullState \<Rightarrow> nat \<Rightarrow> nat \<Rightarrow> (HullState \<times> nat) option" where
  "addAdjoiningFace st eyeVertex horizonEdge = do {
     t \<leftarrow> halfEdgeTail (hedges st) (hedges st horizonEdge);
     let (f, st1) = faceCreate eyeVertex t (halfEdgeHead (hedges st horizonEdge)) st;
     st2 \<leftarrow> faceCompute f (points st1) st1;
     let st3 = st2\<lparr>faces := faces st2 @ [f]\<rparr>;
     st4 \<leftarrow> setTwinEdges st3 (faceGetEdge st3 f (- 1)) (twin (hedges st3 horizonEdge));
     sideEdge \<leftarrow> faceGetEdge st4 f 0;
     Some (st4, sideEdge)
   }"

definition newFaceStep ::
  "nat \<Rightarrow> nat \<Rightarrow> HullState \<times> nat option \<times> nat option \<Rightarrow> (HullState \<times> nat option \<times> nat option) option" where
  "newFaceStep eyeVertex horizonEdge acc =
     (case acc of (st, firstSideEdge, previousSideEdge) \<Rightarrow> do {
        (st1, sideEdge) \<leftarrow> addAdjoiningFace st eyeVertex horizonEdge;
        st2 \<leftarrow> (case firstSideEdge of
                  None \<Rightarrow> Some st1
                | Some _ \<Rightarrow> setTwinEdges st1 (enext (hedges st1 sideEdge)) previousSideEdge);
        Some (st2\<lparr>newFaces := newFaces st2 @ [eface (hedges st2 sideEdge)]\<rparr>,
              (case firstSideEdge of None \<Rightarrow> Some sideEdge | Some fs \<Rightarrow> Some fs),
              Some sideEdge)
      })"

definition addNewFaces :: "HullState \<Rightarrow> nat \<Rightarrow> nat list \<Rightarrow> HullState option" where
  "addNewFaces st eyeVertex horizon = do {
     (st1, firstSideEdge, previousSideEdge) \<leftarrow>
        foldM (newFaceStep eyeVertex) horizon (st\<lparr>newFaces := []\<rparr>, None, None);
     fs \<leftarrow> firstSideEdge;
     setTwinEdges st1 (enext (hedges st1 fs)) previousSideEdge
   }"

definition addVertexToHull :: "nat \<Rightarrow> nat \<Rightarrow> HullState \<Rightarrow> nat \<Rightarrow> HullState option" where
  "addVertexToHull k n st eyeVertex = do {
     let st1 = st\<lparr>unassigned := vertexListClear (unassigned st)\<rparr>;
     f \<leftarrow> vface (vnodes st1 eyeVertex);
     let st2 = removeVertexFromFace st1 eyeVertex f;
     f2 \<leftarrow> vface (vnodes st2 eyeVertex);
     (st3, horizon) \<leftarrow> computeHorizon k n st2 (index (vnodes st2 eyeVertex)) None f2 [];
     st4 \<leftarrow> addNewFaces st3 eyeVertex horizon;
     resolveUnassignedPoints n st4 (newFaces st4)
   }"

definition reindexFaces :: "HullState \<Rightarrow> HullState" where
  "reindexFaces st = st\<lparr>faces := filter (\<lambda>f. mark (fobjs st f) = VISIBLE) (faces st)\<rparr>"

definition triangleStep :: "HullState \<Rightarrow> nat \<Rightarrow> nat list \<Rightarrow> nat list option" where
  "triangleStep st f result =
     (if mark (fobjs st f) = VISIBLE \<and> edge (fobjs st f) \<noteq> None then do {
        e \<leftarrow> edge (fobjs st f);
        n \<leftarrow> enext (hedges st e);
        p \<leftarrow> eprev (hedges st e);
        Some (result @ [index (vnodes st (vertex (hedges st e))),
                        index (vnodes st (vertex (hedges st n))),
                        index (vnodes st (vertex (hedges st p)))])
      } else Some result)"

definition getTriangleIndices :: "HullState \<Rightarrow> nat list option" where
  "getTriangleIndices st = foldM (triangleStep st) (faces st) []"

text \<open>The loop of \<open>quickhull3\<close>: one vertex per turn, until \<open>nextVertexToAdd\<close> has
  none.\<close>

fun hullLoop :: "nat \<Rightarrow> nat \<Rightarrow> HullState \<Rightarrow> nat option \<Rightarrow> HullState option" where
  "hullLoop k n st None = Some st"
| "hullLoop 0 n st (Some v) = None"
| "hullLoop (Suc k) n st (Some v) =
     (case addVertexToHull n n st v of
        None \<Rightarrow> None
      | Some st1 \<Rightarrow>
          (case nextVertexToAdd n st1 of
             None \<Rightarrow> None
           | Some v1 \<Rightarrow> hullLoop k n st1 v1))"

text \<open>\<open>buildHull\<close> is the body of \<open>quickhull3\<close> from \<open>createHullState\<close> to
  \<open>reindexFaces\<close>; it gives the final hull state, from which \<open>quickhull3\<close> reads the
  triangles.\<close>

definition buildHull :: "nat \<Rightarrow> real list \<Rightarrow> HullState option" where
  "buildHull k pts = do {
     let state = createHullState pts (real (length pts) / 3);
     st1 \<leftarrow> computeInitialHull state;
     v \<leftarrow> nextVertexToAdd k st1;
     st2 \<leftarrow> hullLoop k k st1 v;
     Some (reindexFaces st2)
   }"

definition quickhull3 :: "nat \<Rightarrow> real list \<Rightarrow> nat list option" where
  "quickhull3 k pts =
     (if real (length pts) / 3 < 4 then Some []
      else do { st \<leftarrow> buildHull k pts; getTriangleIndices st })"

section \<open>Notions used in the statements\<close>

text \<open>Two hull states agree on what the caller supplied and on the tolerance.\<close>

definition sameInput :: "HullState \<Rightarrow> HullState \<Rightarrow> bool" where
  "sameInput st st' = (points st' = points st \<and> tolerance st' = tolerance st)"

text \<open>The signed distance of vertex \<open>v\<close> to face \<open>f\<close> in a hull state, as every step
  that classifies a point computes it.\<close>

definition vertexDistance :: "HullState \<Rightarrow> nat \<Rightarrow> nat \<Rightarrow> real option" where
  "vertexDistance st f v = faceDistanceToPoint (fobjs st f) (points st) (index (vnodes st v))"

text \<open>A run of linked vertex nodes: \<open>listSegment h p c ns q d\<close> says that following
  \<open>next\<close> from the reference \<open>c\<close> visits the nodes \<open>ns\<close> in order, each with \<open>prev\<close>
  pointing at the node before it (\<open>p\<close> for the first); \<open>q\<close> is the last node (\<open>p\<close> when
  there is none) and \<open>d\<close> the \<open>next\<close> of the last. A vertex list is well formed when the
  run from \<open>head\<close> starts with no \<open>prev\<close>, ends at \<open>tail\<close> with no \<open>next\<close>, and has no
  node twice.\<close>

fun listSegment ::
  "vstore \<Rightarrow> nat option \<Rightarrow> nat option \<Rightarrow> nat list \<Rightarrow> nat option \<Rightarrow> nat option \<Rightarrow> bool" where
  "listSegment h p c [] q d = (q = p \<and> d = c)"
| "listSegment h p c (n # ns) q d =
     (c = Some n \<and> vprev (h n) = p \<and> listSegment h (Some n) (vnext (h n)) ns q d)"

definition wellFormed :: "VertexList \<Rightarrow> vstore \<Rightarrow> nat list \<Rightarrow> bool" where
  "wellFormed l h ns = (distinct ns \<and> listSegment h None (head l) ns (tail l) None)"

subsection \<open>Example inputs\<close>

text \<open>Four points on a line, one unit apart.\<close>

definition linePoints :: "real list" where
  "linePoints = [0, 0, 0,  1, 0, 0,  2, 0, 0,  3, 0, 0]"


text \<open>The corners \<open>(\<plusminus>10\<^sup>6, 0, 0)\<close>, \<open>(0, 5\<cdot>10\<^sup>5, 0)\<close>, \<open>(0, 0, -5\<cdot>10\<^sup>5)\<close> of a tetrahedron and a fifth
  point next to the middle of its longest edge. The tolerance of this input is
  \<open>6\<cdot>10\<^sup>6 / 2\<^sup>5\<^sup>2\<close>; the fifth point lies 1.2 tolerances outside the face \<open>y = 0\<close> and half a
  tolerance outside the face \<open>z = 0\<close>. All fifteen numbers are doubles.\<close>

definition edgePoints :: "real list" where
  "edgePoints = [- 1000000, 0, 0,  1000000, 0, 0,  0, 500000, 0,  0, 0, - 500000,
                 0, - (7200000 / 2 ^ 52), 3000000 / 2 ^ 52]"

text \<open>A state with one face, the plane \<open>z = 0\<close>, and one point exactly at the tolerance
  above it; and a state with two parallel faces, both below the one point.\<close>

definition boundaryState :: HullState where
  "boundaryState =
     \<lparr>points = [0, 0, 1], tolerance = 1, faces = [0], newFaces = [0],
      assigned = createVertexList, unassigned = createVertexList,
      vertices = [0], vnodes = createVertexNode,
      hedges = (\<lambda>_. createHalfEdge 0 0),
      fobjs = (\<lambda>_. createFace\<lparr>normal := (0, 0, 1)\<rparr>),
      nhedges = 0, nfobjs = 1\<rparr>"

definition retriageState :: HullState where
  "retriageState =
     \<lparr>points = [0, 0, 2], tolerance = 1, faces = [0, 1], newFaces = [0, 1],
      assigned = createVertexList, unassigned = \<lparr>head = Some 0, tail = Some 0\<rparr>,
      vertices = [0], vnodes = createVertexNode,
      hedges = (\<lambda>_. createHalfEdge 0 0),
      fobjs = (\<lambda>_. createFace)
        (0 := createFace\<lparr>normal := (0, 0, 1), constant := 0\<rparr>,
         1 := createFace\<lparr>normal := (0, 0, 1), constant := - 1\<rparr>),
      nhedges = 0, nfobjs = 2\<rparr>"

text \<open>A list of three linked nodes, and two more nodes linked to each other.\<close>

definition threeList :: VertexList where
  "threeList = \<lparr>head = Some 0, tail = Some 2\<rparr>"

definition threeStore :: vstore where
  "threeStore = createVertexNode
     (0 := \<lparr>index = 0, vprev = None, vnext = Some 1, vface = None\<rparr>,
      1 := \<lparr>index = 1, vprev = Some 0, vnext = Some 2, vface = None\<rparr>,
      2 := \<lparr>index = 2, vprev = Some 1, vnext = None, vface = None\<rparr>,
      3 := \<lparr>index = 3, vprev = None, vnext = Some 4, vface = None\<rparr>,
      4 := \<lparr>index = 4, vprev = Some 3, vnext = None, vface = None\<rparr>)"

section \<open>Frame properties: the point array and the tolerance\<close>

lemma foldM_invariant:
  assumes "foldM f xs s = Some s'" and "P s"
    and "\<And>x a b. x \<in> set xs \<Longrightarrow> P a \<Longrightarrow> f x a = Some b \<Longrightarrow> P b"
  shows "P s'"
  using assms
proof (induction xs arbitrary: s)
  case Nil
  then show ?case by simp
next
  case (Cons x xs)
  from Cons.prems(1) obtain s1 where s1: "f x s = Some s1" and rest: "foldM f xs s1 = Some s'"
    by (auto split: option.splits)
  have "P s1" using Cons.prems(2,3) s1 by auto
  then show ?case using Cons.IH [OF rest] Cons.prems(3) by auto
qed

lemma sameInput_refl [simp]: "sameInput st st"
  by (simp add: sameInput_def)

lemma sameInput_trans: "sameInput a b \<Longrightarrow> sameInput b c \<Longrightarrow> sameInput a c"
  by (simp add: sameInput_def)

lemma faceCreate_sameInput: "faceCreate a b c st = (f, st') \<Longrightarrow> sameInput st st'"
  by (auto simp: faceCreate_def Let_def sameInput_def)

lemma faceCompute_sameInput: "faceCompute f pts st = Some st' \<Longrightarrow> sameInput st st'"
  by (auto simp: faceCompute_def Let_def sameInput_def split: Option.bind_splits prod.splits)

lemma setTwinEdges_sameInput: "setTwinEdges st a b = Some st' \<Longrightarrow> sameInput st st'"
  by (auto simp: setTwinEdges_def sameInput_def split: Option.bind_splits)

lemma addFaceToHull_sameInput: "addFaceToHull f st = Some st' \<Longrightarrow> sameInput st st'"
  by (auto simp: addFaceToHull_def sameInput_def split: Option.bind_splits
      dest!: faceCompute_sameInput)

lemma addVertexToFace_sameInput: "addVertexToFace st v f = Some st' \<Longrightarrow> sameInput st st'"
  by (auto simp: addVertexToFace_def Let_def sameInput_def split: Option.bind_splits option.splits)

lemma appendUnassigned_sameInput: "appendUnassigned st v = Some st' \<Longrightarrow> sameInput st st'"
  by (auto simp: appendUnassigned_def sameInput_def split: Option.bind_splits)

lemma removeVertexFromFace_sameInput: "sameInput st (removeVertexFromFace st v f)"
  by (auto simp: removeVertexFromFace_def Let_def sameInput_def split: prod.splits)

lemma removeAllVerticesFromFace_sameInput:
  "removeAllVerticesFromFace k st f = Some (st', r) \<Longrightarrow> sameInput st st'"
  by (auto simp: removeAllVerticesFromFace_def Let_def sameInput_def
      split: Option.bind_splits option.splits prod.splits)

lemma absorbLoop_sameInput: "absorbLoop k st af v = Some st' \<Longrightarrow> sameInput st st'"
proof (induction k st af v rule: absorbLoop.induct)
  case (3 k st af v)
  from "3.prems" obtain d st1 where
    d: "faceDistanceToPoint (fobjs st af) (points st) (index (vnodes st v)) = Some d"
    and s1: "(if d > tolerance st then addVertexToFace st v af else appendUnassigned st v) = Some st1"
    and r: "absorbLoop k st1 af (vnext (vnodes st v)) = Some st'"
    by (auto simp: Let_def split: option.splits)
  have "sameInput st st1"
    using s1 by (auto split: if_splits dest: addVertexToFace_sameInput appendUnassigned_sameInput)
  moreover have "sameInput st1 st'"
    using "3.IH" [OF refl d s1 r] .
  ultimately show ?case by (rule sameInput_trans)
qed simp_all

lemma deleteFaceVertices_sameInput:
  "deleteFaceVertices k st f ab = Some st' \<Longrightarrow> sameInput st st'"
  by (auto simp: deleteFaceVertices_def split: Option.bind_splits option.splits
      dest!: removeAllVerticesFromFace_sameInput absorbLoop_sameInput
      simp: sameInput_def)


lemma resolveLoop_sameInput: "resolveLoop k st nf v = Some st' \<Longrightarrow> sameInput st st'"
proof (induction k st nf v rule: resolveLoop.induct)
  case (3 k st nf v)
  from "3.prems" obtain md mf st1 where
    sc: "resolveScan st v nf (tolerance st, None) = Some (md, mf)"
    and s1: "(case mf of None \<Rightarrow> Some st | Some f \<Rightarrow> addVertexToFace st v f) = Some st1"
    and r: "resolveLoop k st1 nf (vnext (vnodes st v)) = Some st'"
    by (auto simp: Let_def split: option.splits)
  have "sameInput st st1"
    using s1 by (auto split: option.splits dest: addVertexToFace_sameInput)
  moreover have "sameInput st1 st'"
    using "3.IH" [OF refl sc refl s1 r] .
  ultimately show ?case by (rule sameInput_trans)
qed simp_all

lemma resolveUnassignedPoints_sameInput:
  "resolveUnassignedPoints k st nf = Some st' \<Longrightarrow> sameInput st st'"
  by (auto simp: resolveUnassignedPoints_def split: if_splits dest: resolveLoop_sameInput)

lemma mark_update_sameInput: "sameInput st (st\<lparr>fobjs := g\<rparr>)"
  by (simp add: sameInput_def)

lemma computeHorizon_sameInput:
  "computeHorizon k n st ep ce f hz = Some (st', hz') \<Longrightarrow> sameInput st st'"
  "horizonLoop k n st ep e se hz = Some (st', hz') \<Longrightarrow> sameInput st st'"
proof (induction k n st ep ce f hz and k n st ep e se hz arbitrary: st' hz' and st' hz'
    rule: computeHorizon_horizonLoop.induct)
  case (1 n st eyePoint crossEdge f horizon)
  then show ?case by simp
next
  case (2 k n st eyePoint crossEdge f horizon)
  from "2.prems" obtain st1 e where
    d: "deleteFaceVertices n st f None = Some st1"
    and e: "(case crossEdge of None \<Rightarrow>
               faceGetEdge (st1\<lparr>fobjs := (fobjs st1)(f := (fobjs st1 f)\<lparr>mark := DELETED\<rparr>)\<rparr>) f 0
             | Some ce \<Rightarrow>
               enext (hedges (st1\<lparr>fobjs := (fobjs st1)(f := (fobjs st1 f)\<lparr>mark := DELETED\<rparr>)\<rparr>) ce))
            = Some e"
    and r: "horizonLoop k n (st1\<lparr>fobjs := (fobjs st1)(f := (fobjs st1 f)\<lparr>mark := DELETED\<rparr>)\<rparr>)
              eyePoint e e horizon = Some (st', hz')"
    by (auto simp: Let_def split: option.splits)
  have "sameInput st st1" using d by (rule deleteFaceVertices_sameInput)
  moreover have "sameInput st1 (st1\<lparr>fobjs := (fobjs st1)(f := (fobjs st1 f)\<lparr>mark := DELETED\<rparr>)\<rparr>)"
    by (rule mark_update_sameInput)
  moreover have "sameInput (st1\<lparr>fobjs := (fobjs st1)(f := (fobjs st1 f)\<lparr>mark := DELETED\<rparr>)\<rparr>) st'"
    using "2.IH" [OF d refl e r] .
  ultimately show ?case by (blast intro: sameInput_trans)
next
  case (3 n st eyePoint e startEdge horizon)
  then show ?case by simp
next
  case (4 k n st eyePoint e startEdge horizon)
  from "4.prems" obtain tw where tw: "twin (hedges st e) = Some tw"
    by (auto split: option.splits)
  from "4.prems" tw obtain st1 hz1 e1 where
    a: "(if mark (fobjs st (eface (hedges st tw))) = VISIBLE then
           (case faceDistanceToPoint (fobjs st (eface (hedges st tw))) (points st) eyePoint of
              None \<Rightarrow> None
            | Some d \<Rightarrow> (if d > tolerance st
                         then computeHorizon k n st eyePoint (Some tw) (eface (hedges st tw)) horizon
                         else Some (st, horizon @ [e])))
         else Some (st, horizon)) = Some (st1, hz1)"
    and n: "enext (hedges st1 e) = Some e1"
    and r: "(if e1 \<noteq> startEdge then horizonLoop k n st1 eyePoint e1 startEdge hz1
             else Some (st1, hz1)) = Some (st', hz')"
    by (auto simp: Let_def split: option.splits)
  have s1: "sameInput st st1"
  proof (cases "mark (fobjs st (eface (hedges st tw))) = VISIBLE")
    case False
    then show ?thesis using a by simp
  next
    case True
    then obtain d where
      d: "faceDistanceToPoint (fobjs st (eface (hedges st tw))) (points st) eyePoint = Some d"
      using a by (auto split: option.splits)
    show ?thesis
    proof (cases "d > tolerance st")
      case False
      then show ?thesis using a True d by simp
    next
      case gt: True
      then have "computeHorizon k n st eyePoint (Some tw) (eface (hedges st tw)) horizon
                   = Some (st1, hz1)"
        using a True d by simp
      then show ?thesis
        using "4.IH"(1) [OF tw refl True d gt] by simp
    qed
  qed
  show ?case
  proof (cases "e1 \<noteq> startEdge")
    case False
    then show ?thesis using r s1 by simp
  next
    case True
    then have "horizonLoop k n st1 eyePoint e1 startEdge hz1 = Some (st', hz')"
      using r by simp
    then have "sameInput st1 st'"
      using "4.IH"(2) [OF tw refl a refl n True] by simp
    then show ?thesis using s1 by (blast intro: sameInput_trans)
  qed
qed


lemma addAdjoiningFace_sameInput:
  "addAdjoiningFace st ev he = Some (st', se) \<Longrightarrow> sameInput st st'"
  by (auto simp: addAdjoiningFace_def Let_def split: Option.bind_splits prod.splits
      dest!: faceCreate_sameInput faceCompute_sameInput setTwinEdges_sameInput
      simp: sameInput_def)

lemma newFaceStep_sameInput:
  "newFaceStep ev he (st, a, b) = Some (st', a', b') \<Longrightarrow> sameInput st st'"
  by (auto simp: newFaceStep_def split: Option.bind_splits option.splits
      dest!: addAdjoiningFace_sameInput setTwinEdges_sameInput simp: sameInput_def)

lemma addNewFaces_sameInput: "addNewFaces st ev hz = Some st' \<Longrightarrow> sameInput st st'"
proof -
  assume a: "addNewFaces st ev hz = Some st'"
  then obtain st1 fs ps x where
    f: "foldM (newFaceStep ev) hz (st\<lparr>newFaces := []\<rparr>, None, None) = Some (st1, fs, ps)"
    and t: "setTwinEdges st1 x ps = Some st'"
    by (auto simp: addNewFaces_def split: Option.bind_splits)
  have "sameInput st (fst (st1, fs, ps))"
  proof (rule foldM_invariant [OF f, where P = "\<lambda>acc. sameInput st (fst acc)"])
    show "sameInput st (fst (st\<lparr>newFaces := []\<rparr>, None :: nat option, None :: nat option))"
      by (simp add: sameInput_def)
  next
    fix x a b
    assume "sameInput st (fst a)" "newFaceStep ev x a = Some b"
    then show "sameInput st (fst b)"
      by (cases a, cases b) (auto dest!: newFaceStep_sameInput intro: sameInput_trans)
  qed
  then show ?thesis using t by (auto dest!: setTwinEdges_sameInput intro: sameInput_trans)
qed

lemma addVertexToHull_sameInput: "addVertexToHull k n st ev = Some st' \<Longrightarrow> sameInput st st'"
proof -
  assume a: "addVertexToHull k n st ev = Some st'"
  define st1 where "st1 = st\<lparr>unassigned := vertexListClear (unassigned st)\<rparr>"
  from a obtain f f2 st3 hz st4 where
    h: "computeHorizon k n (removeVertexFromFace st1 ev f)
          (index (vnodes (removeVertexFromFace st1 ev f) ev)) None f2 [] = Some (st3, hz)"
    and n: "addNewFaces st3 ev hz = Some st4"
    and r: "resolveUnassignedPoints n st4 (newFaces st4) = Some st'"
    by (auto simp: addVertexToHull_def Let_def st1_def split: Option.bind_splits)
  have "sameInput st st1" by (simp add: st1_def sameInput_def)
  moreover have "sameInput st1 (removeVertexFromFace st1 ev f)"
    by (rule removeVertexFromFace_sameInput)
  moreover note computeHorizon_sameInput(1) [OF h] addNewFaces_sameInput [OF n]
    resolveUnassignedPoints_sameInput [OF r]
  ultimately show ?thesis by (blast intro: sameInput_trans)
qed

lemma hullLoop_sameInput: "hullLoop k n st v = Some st' \<Longrightarrow> sameInput st st'"
proof (induction k n st v rule: hullLoop.induct)
  case (3 k n st v)
  from "3.prems" obtain st1 v1 where
    a: "addVertexToHull n n st v = Some st1"
    and b: "nextVertexToAdd n st1 = Some v1"
    and r: "hullLoop k n st1 v1 = Some st'"
    by (auto split: option.splits)
  show ?case
    using addVertexToHull_sameInput [OF a] "3.IH" [OF a b r] by (rule sameInput_trans)
qed simp_all

lemma computeExtremes_points:
  "computeExtremes st = Some (st', mn, mx) \<Longrightarrow> points st' = points st"
  by (auto simp: computeExtremes_def split: Option.bind_splits)

lemma foldM_sameInput:
  assumes "foldM f xs s = Some s'"
    and "\<And>x a b. f x a = Some b \<Longrightarrow> sameInput a b"
  shows "sameInput s s'"
  by (rule foldM_invariant [OF assms(1), where P = "sameInput s"])
    (auto dest!: assms(2) intro: sameInput_trans)

lemma twinStepOutward_sameInput: "twinStepOutward fs i st = Some st' \<Longrightarrow> sameInput st st'"
  by (auto simp: twinStepOutward_def Let_def split: Option.bind_splits
      dest!: setTwinEdges_sameInput intro: sameInput_trans)

lemma twinStepInward_sameInput: "twinStepInward fs i st = Some st' \<Longrightarrow> sameInput st st'"
  by (auto simp: twinStepInward_def Let_def split: Option.bind_splits
      dest!: setTwinEdges_sameInput intro: sameInput_trans)

lemma assignStep_sameInput: "assignStep v0 v1 v2 v3 v st = Some st' \<Longrightarrow> sameInput st st'"
  by (auto simp: assignStep_def split: if_splits Option.bind_splits option.splits
      dest!: addVertexToFace_sameInput)

lemma initialTetrahedron_sameInput:
  assumes "initialTetrahedron b v0 v1 v2 v3 st = Some (fs, st')"
  shows "sameInput st st'"
proof (cases b)
  case True
  obtain f0 s1 where c0: "faceCreate v0 v1 v2 st = (f0, s1)" by (cases "faceCreate v0 v1 v2 st")
  obtain f1 s2 where c1: "faceCreate v3 v1 v0 s1 = (f1, s2)" by (cases "faceCreate v3 v1 v0 s1")
  obtain f2 s3 where c2: "faceCreate v3 v2 v1 s2 = (f2, s3)" by (cases "faceCreate v3 v2 v1 s2")
  obtain f3 s4 where c3: "faceCreate v3 v0 v2 s3 = (f3, s4)" by (cases "faceCreate v3 v0 v2 s3")
  from assms True c0 c1 c2 c3
  have t: "foldM (twinStepOutward [f0, f1, f2, f3]) [0, 1, 2] s4 = Some st'"
    by (simp add: initialTetrahedron_def del: foldM.simps split: Option.bind_splits)
  show ?thesis
    using c0 [THEN faceCreate_sameInput] c1 [THEN faceCreate_sameInput]
      c2 [THEN faceCreate_sameInput] c3 [THEN faceCreate_sameInput]
      foldM_sameInput [OF t twinStepOutward_sameInput]
    by (meson sameInput_trans)
next
  case False
  obtain f0 s1 where c0: "faceCreate v0 v2 v1 st = (f0, s1)" by (cases "faceCreate v0 v2 v1 st")
  obtain f1 s2 where c1: "faceCreate v3 v0 v1 s1 = (f1, s2)" by (cases "faceCreate v3 v0 v1 s1")
  obtain f2 s3 where c2: "faceCreate v3 v1 v2 s2 = (f2, s3)" by (cases "faceCreate v3 v1 v2 s2")
  obtain f3 s4 where c3: "faceCreate v3 v2 v0 s3 = (f3, s4)" by (cases "faceCreate v3 v2 v0 s3")
  from assms False c0 c1 c2 c3
  have t: "foldM (twinStepInward [f0, f1, f2, f3]) [0, 1, 2] s4 = Some st'"
    by (simp add: initialTetrahedron_def del: foldM.simps split: Option.bind_splits)
  show ?thesis
    using c0 [THEN faceCreate_sameInput] c1 [THEN faceCreate_sameInput]
      c2 [THEN faceCreate_sameInput] c3 [THEN faceCreate_sameInput]
      foldM_sameInput [OF t twinStepInward_sameInput]
    by (meson sameInput_trans)
qed

text \<open>After \<open>computeExtremes\<close> has set the tolerance, the rest of \<open>computeInitialHull\<close>
  leaves it alone.\<close>

lemma computeInitialHull_sameInput:
  assumes "computeInitialHull st0 = Some st'"
  shows "\<exists>st mn mx. computeExtremes st0 = Some (st, mn, mx) \<and> sameInput st st'"
proof -
  from assms obtain st mn mx where ce: "computeExtremes st0 = Some (st, mn, mx)"
    by (auto simp: computeInitialHull_def split: Option.bind_splits)
  have "st' = st \<or> (\<exists>b v0 v1 v2 v3 fs st5 st6.
          initialTetrahedron b v0 v1 v2 v3 st = Some (fs, st5) \<and>
          foldM addFaceToHull fs st5 = Some st6 \<and>
          foldM (assignStep v0 v1 v2 v3) (vertices st6) st6 = Some st')"
    using assms ce
    by (fastforce simp: computeInitialHull_def Let_def simp del: foldM.simps
        split: Option.bind_splits option.splits)
  then have "sameInput st st'"
  proof
    assume "st' = st" then show ?thesis by simp
  next
    assume "\<exists>b v0 v1 v2 v3 fs st5 st6.
          initialTetrahedron b v0 v1 v2 v3 st = Some (fs, st5) \<and>
          foldM addFaceToHull fs st5 = Some st6 \<and>
          foldM (assignStep v0 v1 v2 v3) (vertices st6) st6 = Some st'"
    then obtain b v0 v1 v2 v3 fs st5 st6 where
      i: "initialTetrahedron b v0 v1 v2 v3 st = Some (fs, st5)"
      and a: "foldM addFaceToHull fs st5 = Some st6"
      and r: "foldM (assignStep v0 v1 v2 v3) (vertices st6) st6 = Some st'"
      by blast
    show ?thesis
      using initialTetrahedron_sameInput [OF i]
        foldM_sameInput [OF a addFaceToHull_sameInput]
        foldM_sameInput [OF r assignStep_sameInput]
      by (meson sameInput_trans)
  qed
  then show ?thesis using ce by blast
qed

lemma buildHull_sameInput:
  assumes "buildHull k pts = Some st'"
  shows "\<exists>st mn mx. computeExtremes (createHullState pts (real (length pts) / 3)) = Some (st, mn, mx)
           \<and> sameInput st st'"
proof -
  from assms obtain st1 v st2 where
    a: "computeInitialHull (createHullState pts (real (length pts) / 3)) = Some st1"
    and b: "hullLoop k k st1 v = Some st2" and c: "st' = reindexFaces st2"
    by (auto simp: buildHull_def Let_def split: Option.bind_splits)
  from computeInitialHull_sameInput [OF a] obtain st mn mx where
    ce: "computeExtremes (createHullState pts (real (length pts) / 3)) = Some (st, mn, mx)"
    and s: "sameInput st st1" by blast
  have "sameInput st2 st'" by (simp add: c reindexFaces_def sameInput_def)
  with s hullLoop_sameInput [OF b] have "sameInput st st'"
    by (blast intro: sameInput_trans)
  with ce show ?thesis by blast
qed

section \<open>Evaluating the model on concrete inputs\<close>

lemmas model_defs = Let_def EPSILON_def Number_EPSILON_def VISIBLE_def DELETED_def
  createVertexNode_def createVertexList_def vertexListIsEmpty_def vertexListClear_def
  set_vprev_def set_vnext_def vertexListAppend_def vertexListAppendChain_def
  vertexListInsertBefore_def vertexListRemove_def vertexListRemoveSubList_def coord_def
  point3_def computePlane_def distanceToPlane_def distanceToLineSquared_def createHalfEdge_def
  halfEdgeHead_def halfEdgeTail_def halfEdgeSetTwin_def createFace_def set_enext_def
  set_eprev_def faceCreate_def faceGetEdge_def faceCompute_def faceDistanceToPoint_def
  createHullState_def extremesAxis_def extremesVertex_def computeExtremes_def
  separationStep_def lineStep_def planeStep_def setTwinEdges_def twinStepOutward_def
  twinStepInward_def addFaceToHull_def addVertexToFace_def maxFaceStep_def assignStep_def
  initialTetrahedron_def computeInitialHull_def removeVertexFromFace_def
  removeAllVerticesFromFace_def appendUnassigned_def deleteFaceVertices_def
  resolveUnassignedPoints_def nextVertexToAdd_def addAdjoiningFace_def newFaceStep_def
  addNewFaces_def addVertexToHull_def reindexFaces_def triangleStep_def
  getTriangleIndices_def buildHull_def quickhull3_def

text \<open>The continuation of a bind and the body of a \<open>let\<close> are simplified only once the
  value they receive is known.\<close>

lemma bind_weak_cong: "m = m' \<Longrightarrow> Option.bind m f = Option.bind m' f"
  by simp

lemma upt_0_4: "[0..<4] = [0, 1, 2, 3]"
  by (simp add: upt_rec)

lemma upt_0_5: "[0..<5] = [0, 1, 2, 3, 4]"
  by (simp add: upt_rec)

lemma upt_0_1: "[0..<1] = [0]"
  by (simp add: upt_rec)

lemma walkNext_numeral [simp]:
  "walkNext (numeral k) hs e =
     (case enext (hs e) of None \<Rightarrow> None | Some x \<Rightarrow> walkNext (pred_numeral k) hs x)"
  by (simp add: numeral_eq_Suc)

lemma walkPrev_numeral [simp]:
  "walkPrev (numeral k) hs e =
     (case eprev (hs e) of None \<Rightarrow> None | Some x \<Rightarrow> walkPrev (pred_numeral k) hs x)"
  by (simp add: numeral_eq_Suc)

lemma walkNext_1 [simp]: "walkNext (Suc 0) hs e = enext (hs e)"
  by (simp split: option.splits)

lemma walkPrev_1 [simp]: "walkPrev (Suc 0) hs e = eprev (hs e)"
  by (simp split: option.splits)

lemma sqrt_eval: "0 \<le> r \<Longrightarrow> r * r = x \<Longrightarrow> sqrt x = r"
  by (metis abs_of_nonneg real_sqrt_abs2)

lemma less_sqrt_iff: "0 \<le> c \<Longrightarrow> (c < sqrt x) = (c * c < x)"
  by (metis abs_of_nonneg real_sqrt_abs2 real_sqrt_less_iff)

lemma sqrt_less_iff: "0 < c \<Longrightarrow> (sqrt x < c) = (x < c * c)"
  by (metis abs_of_pos real_sqrt_abs2 real_sqrt_less_iff)

lemma less_sqrt_mult: "0 < c \<Longrightarrow> 0 \<le> a \<Longrightarrow> (a < sqrt x * c) = (a * a < x * (c * c))"
proof -
  assume c: "0 < c" and a: "0 \<le> a"
  have "(a < sqrt x * c) = (a / c < sqrt x)" using c by (simp add: field_simps)
  also have "\<dots> = (a / c * (a / c) < x)" using c a by (intro less_sqrt_iff) simp
  also have "\<dots> = (a * a < x * (c * c))" using c by (simp add: field_simps)
  finally show ?thesis .
qed

lemma sqrt_mult_less: "0 < c \<Longrightarrow> 0 < a \<Longrightarrow> (sqrt x * c < a) = (x * (c * c) < a * a)"
proof -
  assume c: "0 < c" and a: "0 < a"
  have "(sqrt x * c < a) = (sqrt x < a / c)" using c by (simp add: field_simps)
  also have "\<dots> = (x < a / c * (a / c))" using c a by (intro sqrt_less_iff) simp
  also have "\<dots> = (x * (c * c) < a * a)" using c by (simp add: field_simps)
  finally show ?thesis .
qed

text \<open>For evaluation the definitions are used with their tuple patterns turned into
  projections: a tuple pattern makes the simplifier go through the body once for every
  component before the values are in place.\<close>

lemmas fun_evals = computeHorizon.simps [unfolded case_prod_beta]
  horizonLoop.simps [unfolded case_prod_beta] resolveScan.simps [unfolded case_prod_beta]
  resolveLoop.simps [unfolded case_prod_beta]

lemmas eval_defs = model_defs [unfolded case_prod_beta] fun_evals less_sqrt_iff sqrt_less_iff
  less_sqrt_mult sqrt_mult_less upt_0_4 upt_0_5

lemma edgePoints_length: "length edgePoints = 15"
  by (simp add: edgePoints_def)

lemma edgePoints_nth:
  "edgePoints ! i = [- 1000000, 0, 0,  1000000, 0, 0,  0, 500000, 0,  0, 0, - 500000,
                     0, - (7200000 / 2 ^ 52), 3000000 / 2 ^ 52] ! i"
  by (simp add: edgePoints_def)

lemma sqrt_edge_face: "sqrt (3626346588134765625 / 302231454903657293676544) = 1904296875 / 549755813888"
  by (rule sqrt_eval) simp_all
section \<open>The input array is not written to\<close>

lemma buildHull_linePoints: "\<exists>st. buildHull 1 linePoints = Some st"
  by (simp add: model_defs linePoints_def upt_0_4 cong: bind_weak_cong let_weak_cong)

text \<open>C9. \<open>quickhull3\<close> never mutates its input: when the call returns, the point array of
  the hull state is the array that was passed in (no step of the construction writes to
  it).\<close>

theorem quickhull3_input_unchanged:
  assumes "quickhull3 k pts = Some tris"
  shows "real (length pts) / 3 < 4 \<or>
         (\<exists>st. buildHull k pts = Some st \<and> getTriangleIndices st = Some tris \<and> points st = pts)"
proof (cases "real (length pts) / 3 < 4")
  case True
  then show ?thesis by simp
next
  case False
  with assms obtain st where b: "buildHull k pts = Some st" and g: "getTriangleIndices st = Some tris"
    by (auto simp: quickhull3_def split: Option.bind_splits)
  from buildHull_sameInput [OF b] obtain s mn mx where
    "computeExtremes (createHullState pts (real (length pts) / 3)) = Some (s, mn, mx)"
    "sameInput s st" by blast
  then have "points st = pts"
    by (auto simp: sameInput_def createHullState_def dest!: computeExtremes_points)
  with b g show ?thesis by blast
qed

lemma quickhull3_linePoints: "quickhull3 1 linePoints = Some []"
  by (simp add: model_defs linePoints_def upt_0_4 cong: bind_weak_cong let_weak_cong)

theorem quickhull3_input_unchanged_witness:
  "quickhull3 1 linePoints = Some [] \<and>
   (\<exists>st. buildHull 1 linePoints = Some st \<and> getTriangleIndices st = Some [] \<and>
         points st = linePoints)"
  using quickhull3_input_unchanged [OF quickhull3_linePoints] quickhull3_linePoints
  by (simp add: linePoints_def)

section \<open>Classifying a point against a face\<close>

lemma maxFaceStep_fold:
  assumes "foldM (maxFaceStep st v) fs (m0, f0) = Some (md, mf)"
  shows "m0 \<le> md \<and>
         (mf = f0 \<and> md = m0 \<or>
          (\<exists>f\<in>set fs. mf = Some f \<and> vertexDistance st f v = Some md \<and> m0 < md)) \<and>
         (\<forall>f\<in>set fs. \<exists>d. vertexDistance st f v = Some d \<and> d \<le> md)"
  using assms
proof (induction fs arbitrary: m0 f0)
  case Nil
  then show ?case by simp
next
  case (Cons g fs)
  from Cons.prems obtain acc where
    a: "maxFaceStep st v g (m0, f0) = Some acc"
    and r0: "foldM (maxFaceStep st v) fs acc = Some (md, mf)"
    by (auto split: option.splits)
  from a obtain d where
    d: "vertexDistance st g v = Some d"
    and acc: "acc = (if d > m0 then (d, Some g) else (m0, f0))"
    by (auto simp: maxFaceStep_def vertexDistance_def split: Option.bind_splits)
  from r0 acc
  have r: "foldM (maxFaceStep st v) fs (if d > m0 then (d, Some g) else (m0, f0)) = Some (md, mf)"
    by simp
  show ?case
  proof (cases "d > m0")
    case True
    with r have "foldM (maxFaceStep st v) fs (d, Some g) = Some (md, mf)" by simp
    from Cons.IH [OF this] True d show ?thesis by auto
  next
    case False
    with r have "foldM (maxFaceStep st v) fs (m0, f0) = Some (md, mf)" by simp
    from Cons.IH [OF this] False d show ?thesis by auto
  qed
qed

lemma assignStep_cases:
  assumes "assignStep v0 v1 v2 v3 v st = Some st'"
  shows "st' = st \<or>
         (\<exists>f d. f \<in> set (faces st) \<and> vertexDistance st f v = Some d \<and> tolerance st < d \<and>
                (\<forall>g\<in>set (faces st). \<exists>e. vertexDistance st g v = Some e \<and> e \<le> d) \<and>
                addVertexToFace st v f = Some st')"
proof (cases "v \<noteq> v0 \<and> v \<noteq> v1 \<and> v \<noteq> v2 \<and> v \<noteq> v3")
  case False
  with assms show ?thesis by (auto simp: assignStep_def)
next
  case True
  with assms obtain md mf where
    f: "foldM (maxFaceStep st v) (faces st) (tolerance st, None) = Some (md, mf)"
    and a: "(case mf of None \<Rightarrow> Some st | Some f \<Rightarrow> addVertexToFace st v f) = Some st'"
    by (auto simp: assignStep_def split: Option.bind_splits)
  from maxFaceStep_fold [OF f] a show ?thesis
    by (cases mf) auto
qed

lemma assignStep_inside:
  assumes "\<forall>f\<in>set (faces st). \<exists>d. vertexDistance st f v = Some d \<and> d \<le> tolerance st"
  shows "assignStep v0 v1 v2 v3 v st = Some st"
proof -
  have "\<And>m0 f0. \<forall>f\<in>set fs. \<exists>d. vertexDistance st f v = Some d \<and> d \<le> m0 \<Longrightarrow>
          foldM (maxFaceStep st v) fs (m0, f0) = Some (m0, f0)" for fs
    by (induction fs) (auto simp: maxFaceStep_def vertexDistance_def)
  from this [OF assms] show ?thesis
    by (simp add: assignStep_def)
qed

lemma absorbLoop_step:
  assumes "vertexDistance st af v = Some d"
  shows "absorbLoop (Suc k) st af (Some v) =
           (case (if tolerance st < d then addVertexToFace st v af else appendUnassigned st v) of
              None \<Rightarrow> None
            | Some st1 \<Rightarrow> absorbLoop k st1 af (vnext (vnodes st v)))"
  using assms by (simp add: vertexDistance_def Let_def)

lemma appendUnassigned_keeps:
  assumes "appendUnassigned st v = Some st1"
  shows "assigned st1 = assigned st \<and> fobjs st1 = fobjs st \<and>
         (\<forall>w. vface (vnodes st1 w) = vface (vnodes st w))"
  using assms
  by (auto simp: appendUnassigned_def vertexListAppend_def Let_def set_vprev_def set_vnext_def
      split: Option.bind_splits if_splits)

lemma addVertexToFace_effect:
  assumes "addVertexToFace st v f = Some st1"
  shows "outside (fobjs st1 f) = Some v \<and> vface (vnodes st1 v) = Some f"
  using assms
  by (auto simp: addVertexToFace_def vertexListAppend_def vertexListInsertBefore_def Let_def
      set_vprev_def set_vnext_def split: Option.bind_splits if_splits option.splits)

lemma resolveScan_spec:
  assumes "resolveScan st v fs (m0, f0) = Some (md, mf)"
  shows "m0 \<le> md \<and>
         (\<exists>pre post. fs = pre @ post \<and>
            (\<forall>g\<in>set pre. mark (fobjs st g) = VISIBLE \<longrightarrow>
                 (\<exists>d. vertexDistance st g v = Some d \<and> d \<le> md)) \<and>
            (\<forall>g\<in>set (butlast pre). mark (fobjs st g) = VISIBLE \<longrightarrow>
                 (\<exists>d. vertexDistance st g v = Some d \<and> d \<le> 1000 * tolerance st)) \<and>
            (mf = f0 \<and> md = m0 \<or>
             (\<exists>f\<in>set pre. mark (fobjs st f) = VISIBLE \<and> mf = Some f \<and>
                 vertexDistance st f v = Some md \<and> m0 < md)) \<and>
            (post \<noteq> [] \<longrightarrow> 1000 * tolerance st < md))"
  using assms
proof (induction fs arbitrary: m0 f0)
  case Nil
  then show ?case by simp
next
  case (Cons g fs)
  show ?case
  proof (cases "mark (fobjs st g) = VISIBLE")
    case False
    with Cons.prems have "resolveScan st v fs (m0, f0) = Some (md, mf)" by simp
    from Cons.IH [OF this] obtain pre post where
      p: "fs = pre @ post"
      "\<forall>g\<in>set pre. mark (fobjs st g) = VISIBLE \<longrightarrow> (\<exists>d. vertexDistance st g v = Some d \<and> d \<le> md)"
      "\<forall>g\<in>set (butlast pre). mark (fobjs st g) = VISIBLE \<longrightarrow>
                 (\<exists>d. vertexDistance st g v = Some d \<and> d \<le> 1000 * tolerance st)"
      "mf = f0 \<and> md = m0 \<or>
             (\<exists>f\<in>set pre. mark (fobjs st f) = VISIBLE \<and> mf = Some f \<and>
                 vertexDistance st f v = Some md \<and> m0 < md)"
      "post \<noteq> [] \<longrightarrow> 1000 * tolerance st < md"
      and m: "m0 \<le> md" by blast
    have "g # fs = (g # pre) @ post" using p(1) by simp
    moreover have "\<forall>x\<in>set (g # pre). mark (fobjs st x) = VISIBLE \<longrightarrow>
         (\<exists>d. vertexDistance st x v = Some d \<and> d \<le> md)" using p(2) False by simp
    moreover have "\<forall>x\<in>set (butlast (g # pre)). mark (fobjs st x) = VISIBLE \<longrightarrow>
         (\<exists>d. vertexDistance st x v = Some d \<and> d \<le> 1000 * tolerance st)"
      using p(3) False by (cases pre) auto
    moreover have "mf = f0 \<and> md = m0 \<or>
             (\<exists>f\<in>set (g # pre). mark (fobjs st f) = VISIBLE \<and> mf = Some f \<and>
                 vertexDistance st f v = Some md \<and> m0 < md)" using p(4) by auto
    ultimately show ?thesis using p(5) m by blast
  next
    case True
    with Cons.prems obtain d where d: "vertexDistance st g v = Some d"
      by (auto simp: vertexDistance_def split: option.splits)
    define m1 where "m1 = (if d > m0 then d else m0)"
    define f1 where "f1 = (if d > m0 then Some g else f0)"
    have m1: "m0 \<le> m1" "d \<le> m1" by (simp_all add: m1_def)
    have upd: "f1 = f0 \<and> m1 = m0 \<or> (f1 = Some g \<and> m1 = d \<and> m0 < m1)"
      by (simp add: m1_def f1_def)
    show ?thesis
    proof (cases "m1 > 1000 * tolerance st")
      case brk: True
      with Cons.prems True d have res: "md = m1" "mf = f1"
        by (auto simp: vertexDistance_def m1_def f1_def Let_def split: if_splits)
      have "g # fs = [g] @ fs" by simp
      moreover have "\<forall>x\<in>set [g]. mark (fobjs st x) = VISIBLE \<longrightarrow>
         (\<exists>e. vertexDistance st x v = Some e \<and> e \<le> md)" using d m1 res by simp
      moreover have "\<forall>x\<in>set (butlast [g]). mark (fobjs st x) = VISIBLE \<longrightarrow>
         (\<exists>e. vertexDistance st x v = Some e \<and> e \<le> 1000 * tolerance st)" by simp
      moreover have "mf = f0 \<and> md = m0 \<or>
             (\<exists>f\<in>set [g]. mark (fobjs st f) = VISIBLE \<and> mf = Some f \<and>
                 vertexDistance st f v = Some md \<and> m0 < md)"
        using upd res True d by auto
      moreover have "fs \<noteq> [] \<longrightarrow> 1000 * tolerance st < md" using brk res by simp
      ultimately show ?thesis using m1 res by blast
    next
      case nobrk: False
      with Cons.prems True d have "resolveScan st v fs (m1, f1) = Some (md, mf)"
        by (auto simp: vertexDistance_def m1_def f1_def Let_def split: if_splits)
      from Cons.IH [OF this] obtain pre post where
        p: "fs = pre @ post"
        "\<forall>g\<in>set pre. mark (fobjs st g) = VISIBLE \<longrightarrow> (\<exists>d. vertexDistance st g v = Some d \<and> d \<le> md)"
        "\<forall>g\<in>set (butlast pre). mark (fobjs st g) = VISIBLE \<longrightarrow>
                 (\<exists>d. vertexDistance st g v = Some d \<and> d \<le> 1000 * tolerance st)"
        "mf = f1 \<and> md = m1 \<or>
             (\<exists>f\<in>set pre. mark (fobjs st f) = VISIBLE \<and> mf = Some f \<and>
                 vertexDistance st f v = Some md \<and> m1 < md)"
        "post \<noteq> [] \<longrightarrow> 1000 * tolerance st < md"
        and m: "m1 \<le> md" by blast
      have "g # fs = (g # pre) @ post" using p(1) by simp
      moreover have "\<forall>x\<in>set (g # pre). mark (fobjs st x) = VISIBLE \<longrightarrow>
         (\<exists>e. vertexDistance st x v = Some e \<and> e \<le> md)" using p(2) d m1 m by auto
      moreover have "\<forall>x\<in>set (butlast (g # pre)). mark (fobjs st x) = VISIBLE \<longrightarrow>
         (\<exists>e. vertexDistance st x v = Some e \<and> e \<le> 1000 * tolerance st)"
        using p(3) d m1 nobrk by (cases pre) auto
      moreover have "mf = f0 \<and> md = m0 \<or>
             (\<exists>f\<in>set (g # pre). mark (fobjs st f) = VISIBLE \<and> mf = Some f \<and>
                 vertexDistance st f v = Some md \<and> m0 < md)"
        using p(4) upd True d m1 by auto
      ultimately show ?thesis using p(5) m m1 by (smt (verit, best))
    qed
  qed
qed

lemma resolveScan_inside:
  assumes "\<forall>f\<in>set fs. mark (fobjs st f) = VISIBLE \<longrightarrow>
             (\<exists>d. vertexDistance st f v = Some d \<and> d \<le> m0)"
  shows "resolveScan st v fs (m0, f0) = Some (m0, f0)"
  using assms by (induction fs) (auto simp: vertexDistance_def)

lemma resolveLoop_step:
  assumes "resolveScan st v nf (tolerance st, None) = Some (md, mf)"
  shows "resolveLoop (Suc k) st nf (Some v) =
           (case mf of
              None \<Rightarrow> resolveLoop k st nf (vnext (vnodes st v))
            | Some f \<Rightarrow> (case addVertexToFace st v f of
                           None \<Rightarrow> None
                         | Some st1 \<Rightarrow> resolveLoop k st1 nf (vnext (vnodes st v))))"
  using assms by (simp add: Let_def split: option.splits)


text \<open>C5. In each of the three steps that classify a point against a face, only a signed
  distance strictly greater than the tolerance counts as outside. In the initial assignment
  a vertex whose distance to every face is at most the tolerance leaves the state as it
  is, and a vertex that is assigned has a distance above the tolerance to its face. In the
  absorption into a face a vertex at most the tolerance away is not added to the face (it
  goes to the \<open>unassigned\<close> list, which changes neither the \<open>assigned\<close> list nor any face),
  and one farther away is added to the face. In re-triage a vertex at most the tolerance
  away from every visible new face leaves the state as it is, and a face that is chosen has
  a distance above the tolerance.\<close>

theorem strict_comparison_with_tolerance:
  "((\<forall>f\<in>set (faces st). \<exists>d. vertexDistance st f v = Some d \<and> d \<le> tolerance st) \<longrightarrow>
      assignStep v0 v1 v2 v3 v st = Some st) \<and>
   (assignStep v0 v1 v2 v3 v st = Some st' \<longrightarrow>
      st' = st \<or> (\<exists>f d. f \<in> set (faces st) \<and> vertexDistance st f v = Some d \<and>
                        tolerance st < d \<and> addVertexToFace st v f = Some st')) \<and>
   (vertexDistance st af v = Some d \<and> d \<le> tolerance st \<longrightarrow>
      absorbLoop (Suc k) st af (Some v) =
        (case appendUnassigned st v of
           None \<Rightarrow> None
         | Some st1 \<Rightarrow> absorbLoop k st1 af (vnext (vnodes st v))) \<and>
      (\<forall>st1. appendUnassigned st v = Some st1 \<longrightarrow>
          assigned st1 = assigned st \<and> fobjs st1 = fobjs st)) \<and>
   (vertexDistance st af v = Some d \<and> tolerance st < d \<longrightarrow>
      absorbLoop (Suc k) st af (Some v) =
        (case addVertexToFace st v af of
           None \<Rightarrow> None
         | Some st1 \<Rightarrow> absorbLoop k st1 af (vnext (vnodes st v)))) \<and>
   ((\<forall>f\<in>set nf. mark (fobjs st f) = VISIBLE \<longrightarrow>
        (\<exists>d. vertexDistance st f v = Some d \<and> d \<le> tolerance st)) \<longrightarrow>
      resolveLoop (Suc k) st nf (Some v) = resolveLoop k st nf (vnext (vnodes st v))) \<and>
   (resolveScan st v nf (tolerance st, None) = Some (md, Some g) \<longrightarrow>
      vertexDistance st g v = Some md \<and> tolerance st < md)"
proof (intro conjI impI)
  assume "\<forall>f\<in>set (faces st). \<exists>d. vertexDistance st f v = Some d \<and> d \<le> tolerance st"
  then show "assignStep v0 v1 v2 v3 v st = Some st" by (rule assignStep_inside)
next
  assume "assignStep v0 v1 v2 v3 v st = Some st'"
  from assignStep_cases [OF this]
  show "st' = st \<or> (\<exists>f d. f \<in> set (faces st) \<and> vertexDistance st f v = Some d \<and>
                        tolerance st < d \<and> addVertexToFace st v f = Some st')"
    by blast
next
  assume a: "vertexDistance st af v = Some d \<and> d \<le> tolerance st"
  then show "absorbLoop (Suc k) st af (Some v) =
        (case appendUnassigned st v of
           None \<Rightarrow> None
         | Some st1 \<Rightarrow> absorbLoop k st1 af (vnext (vnodes st v)))"
    using absorbLoop_step [of st af v d k] by simp
  show "\<forall>st1. appendUnassigned st v = Some st1 \<longrightarrow>
          assigned st1 = assigned st \<and> fobjs st1 = fobjs st"
    using appendUnassigned_keeps by blast
next
  assume "vertexDistance st af v = Some d \<and> tolerance st < d"
  then show "absorbLoop (Suc k) st af (Some v) =
        (case addVertexToFace st v af of
           None \<Rightarrow> None
         | Some st1 \<Rightarrow> absorbLoop k st1 af (vnext (vnodes st v)))"
    using absorbLoop_step [of st af v d k] by simp
next
  assume "\<forall>f\<in>set nf. mark (fobjs st f) = VISIBLE \<longrightarrow>
        (\<exists>d. vertexDistance st f v = Some d \<and> d \<le> tolerance st)"
  from resolveScan_inside [OF this]
  have "resolveScan st v nf (tolerance st, None) = Some (tolerance st, None)" .
  from resolveLoop_step [OF this]
  show "resolveLoop (Suc k) st nf (Some v) = resolveLoop k st nf (vnext (vnodes st v))"
    by simp
next
  assume "resolveScan st v nf (tolerance st, None) = Some (md, Some g)"
  from resolveScan_spec [OF this]
  show "vertexDistance st g v = Some md" "tolerance st < md" by auto
qed

text \<open>A point exactly at the tolerance: the face \<open>z = 0\<close>, the point \<open>(0, 0, 1)\<close> and the
  tolerance \<open>1\<close>.\<close>

lemma boundaryState_distance: "vertexDistance boundaryState 0 0 = Some (tolerance boundaryState)"
  by (simp add: vertexDistance_def boundaryState_def model_defs)

theorem strict_comparison_with_tolerance_witness:
  "vertexDistance boundaryState 0 0 = Some (tolerance boundaryState) \<and>
   assignStep 1 2 3 4 0 boundaryState = Some boundaryState \<and>
   absorbLoop (Suc 0) boundaryState 0 (Some 0) =
     (case appendUnassigned boundaryState 0 of
        None \<Rightarrow> None
      | Some st1 \<Rightarrow> absorbLoop 0 st1 0 (vnext (vnodes boundaryState 0))) \<and>
   resolveLoop (Suc 0) boundaryState [0] (Some 0) =
     resolveLoop 0 boundaryState [0] (vnext (vnodes boundaryState 0))"
proof -
  have a: "\<forall>f\<in>set (faces boundaryState).
             \<exists>d. vertexDistance boundaryState f 0 = Some d \<and> d \<le> tolerance boundaryState"
    using boundaryState_distance by (simp add: boundaryState_def)
  have b: "\<forall>f\<in>set [0]. mark (fobjs boundaryState f) = VISIBLE \<longrightarrow>
             (\<exists>d. vertexDistance boundaryState f 0 = Some d \<and> d \<le> tolerance boundaryState)"
    using boundaryState_distance by simp
  have c: "vertexDistance boundaryState 0 0 = Some (tolerance boundaryState) \<and>
           tolerance boundaryState \<le> tolerance boundaryState"
    using boundaryState_distance by simp
  from strict_comparison_with_tolerance [of boundaryState 0 1 2 3 4 boundaryState 0
      "tolerance boundaryState" 0 "[0]" 0 0] a b c
  show ?thesis by blast
qed

text \<open>C3, as amended. In re-triage the new faces marked \<open>VISIBLE\<close> are scanned in order,
  and the scan stops right after the first face that brings the running maximum above
  1000 times the tolerance (\<open>pre\<close> is the part of the list that was scanned). A vertex
  that is farther than the tolerance from some scanned face is given, by
  \<open>addVertexToFace\<close>, to the scanned face of greatest distance, which becomes its face and
  has it at the head of its outside list; a vertex within the tolerance of every scanned
  face leaves the state as it is.\<close>

theorem retriage_takes_farthest_scanned_face:
  assumes "resolveScan st v nf (tolerance st, None) = Some (md, mf)"
  shows "(\<exists>pre post. nf = pre @ post \<and>
            (post \<noteq> [] \<longrightarrow> 1000 * tolerance st < md) \<and>
            (\<forall>g\<in>set (butlast pre). mark (fobjs st g) = VISIBLE \<longrightarrow>
                 (\<exists>d. vertexDistance st g v = Some d \<and> d \<le> 1000 * tolerance st)) \<and>
            (\<forall>g\<in>set pre. mark (fobjs st g) = VISIBLE \<longrightarrow>
                 (\<exists>d. vertexDistance st g v = Some d \<and> d \<le> md)) \<and>
            (case mf of
               None \<Rightarrow> md = tolerance st
             | Some f \<Rightarrow> f \<in> set pre \<and> mark (fobjs st f) = VISIBLE \<and>
                         vertexDistance st f v = Some md \<and> tolerance st < md)) \<and>
         resolveLoop (Suc k) st nf (Some v) =
           (case mf of
              None \<Rightarrow> resolveLoop k st nf (vnext (vnodes st v))
            | Some f \<Rightarrow> (case addVertexToFace st v f of
                           None \<Rightarrow> None
                         | Some st1 \<Rightarrow> resolveLoop k st1 nf (vnext (vnodes st v)))) \<and>
         (\<forall>f st1. mf = Some f \<and> addVertexToFace st v f = Some st1 \<longrightarrow>
            outside (fobjs st1 f) = Some v \<and> vface (vnodes st1 v) = Some f)"
proof (intro conjI)
  from resolveScan_spec [OF assms] obtain pre post where
    p: "nf = pre @ post"
    "\<forall>g\<in>set pre. mark (fobjs st g) = VISIBLE \<longrightarrow> (\<exists>d. vertexDistance st g v = Some d \<and> d \<le> md)"
    "\<forall>g\<in>set (butlast pre). mark (fobjs st g) = VISIBLE \<longrightarrow>
         (\<exists>d. vertexDistance st g v = Some d \<and> d \<le> 1000 * tolerance st)"
    "mf = None \<and> md = tolerance st \<or>
       (\<exists>f\<in>set pre. mark (fobjs st f) = VISIBLE \<and> mf = Some f \<and>
           vertexDistance st f v = Some md \<and> tolerance st < md)"
    "post \<noteq> [] \<longrightarrow> 1000 * tolerance st < md"
    by blast
  have "case mf of
               None \<Rightarrow> md = tolerance st
             | Some f \<Rightarrow> f \<in> set pre \<and> mark (fobjs st f) = VISIBLE \<and>
                         vertexDistance st f v = Some md \<and> tolerance st < md"
    using p(4) by (cases mf) auto
  with p show "\<exists>pre post. nf = pre @ post \<and>
            (post \<noteq> [] \<longrightarrow> 1000 * tolerance st < md) \<and>
            (\<forall>g\<in>set (butlast pre). mark (fobjs st g) = VISIBLE \<longrightarrow>
                 (\<exists>d. vertexDistance st g v = Some d \<and> d \<le> 1000 * tolerance st)) \<and>
            (\<forall>g\<in>set pre. mark (fobjs st g) = VISIBLE \<longrightarrow>
                 (\<exists>d. vertexDistance st g v = Some d \<and> d \<le> md)) \<and>
            (case mf of
               None \<Rightarrow> md = tolerance st
             | Some f \<Rightarrow> f \<in> set pre \<and> mark (fobjs st f) = VISIBLE \<and>
                         vertexDistance st f v = Some md \<and> tolerance st < md)"
    by blast
next
  show "resolveLoop (Suc k) st nf (Some v) =
           (case mf of
              None \<Rightarrow> resolveLoop k st nf (vnext (vnodes st v))
            | Some f \<Rightarrow> (case addVertexToFace st v f of
                           None \<Rightarrow> None
                         | Some st1 \<Rightarrow> resolveLoop k st1 nf (vnext (vnodes st v))))"
    using assms by (rule resolveLoop_step)
next
  show "\<forall>f st1. mf = Some f \<and> addVertexToFace st v f = Some st1 \<longrightarrow>
            outside (fobjs st1 f) = Some v \<and> vface (vnodes st1 v) = Some f"
    using addVertexToFace_effect by blast
qed

text \<open>Two new faces, both visible: the vertex is 2 above the first and 3 above the second,
  with the tolerance 1.\<close>

lemma retriageState_scan:
  "resolveScan retriageState 0 [0, 1] (tolerance retriageState, None) = Some (3, Some 1)"
  by (simp add: retriageState_def model_defs)

theorem retriage_takes_farthest_scanned_face_witness:
  "resolveScan retriageState 0 [0, 1] (tolerance retriageState, None) = Some (3, Some 1) \<and>
   resolveLoop (Suc 0) retriageState [0, 1] (Some 0) =
     (case addVertexToFace retriageState 0 1 of
        None \<Rightarrow> None
      | Some st1 \<Rightarrow> resolveLoop 0 st1 [0, 1] (vnext (vnodes retriageState 0)))"
  using retriage_takes_farthest_scanned_face [OF retriageState_scan, of 0] retriageState_scan
  by simp

text \<open>The claim as stated fails there: the first new face that the vertex exceeds the
  tolerance on is face 0, and re-triage puts the vertex on the outside list of face 1.\<close>

theorem retriage_first_face_counterexample:
  "mark (fobjs retriageState 0) = VISIBLE \<and>
   vertexDistance retriageState 0 0 = Some 2 \<and> tolerance retriageState < 2 \<and>
   (\<exists>st'. resolveUnassignedPoints 1 retriageState [0, 1] = Some st' \<and>
          outside (fobjs st' 0) = None \<and> outside (fobjs st' 1) = Some 0 \<and>
          vface (vnodes st' 0) = Some 1)"
  by (simp add: retriageState_def vertexDistance_def model_defs
      cong: bind_weak_cong let_weak_cong)

section \<open>Doubly-linked vertex lists\<close>

lemma seg_append:
  "listSegment h p c (xs @ ys) q d =
     (\<exists>q' d'. listSegment h p c xs q' d' \<and> listSegment h q' d' ys q d)"
  by (induction xs arbitrary: p c) auto

lemma seg_frame:
  "x \<notin> set ns \<Longrightarrow> listSegment (h(x := r)) p c ns q d = listSegment h p c ns q d"
  by (induction ns arbitrary: p c) auto

lemma seg_frame_next [simp]:
  "x \<notin> set ns \<Longrightarrow> listSegment (set_vnext h x r) p c ns q d = listSegment h p c ns q d"
  by (simp add: set_vnext_def seg_frame)

lemma seg_frame_prev [simp]:
  "x \<notin> set ns \<Longrightarrow> listSegment (set_vprev h x r) p c ns q d = listSegment h p c ns q d"
  by (simp add: set_vprev_def seg_frame)

lemma seg_ends:
  "listSegment h p c ns q d \<Longrightarrow> ns \<noteq> [] \<Longrightarrow>
     c = Some (hd ns) \<and> q = Some (last ns) \<and> vnext (h (last ns)) = d \<and> vprev (h (hd ns)) = p"
  by (induction ns arbitrary: p c) (auto split: if_splits)

lemma seg_set_next_last:
  "listSegment h p c ns q d \<Longrightarrow> ns \<noteq> [] \<Longrightarrow> distinct ns \<Longrightarrow>
     listSegment (set_vnext h (last ns) d') p c ns q d'"
proof (induction ns arbitrary: p c)
  case Nil
  then show ?case by simp
next
  case (Cons n ns)
  show ?case
  proof (cases "ns = []")
    case True
    with Cons.prems show ?thesis by (auto simp: set_vnext_def)
  next
    case False
    with Cons.prems have "n \<noteq> last ns" by auto
    with Cons False show ?thesis by (auto simp: set_vnext_def)
  qed
qed

lemma seg_set_prev_first:
  "listSegment h p c (n # ns) q d \<Longrightarrow> n \<notin> set ns \<Longrightarrow>
     listSegment (set_vprev h n p') p' c (n # ns) q d"
  by (auto simp: set_vprev_def seg_frame)

lemma chainEnd_segment:
  "listSegment h p (Some c) cs q None \<Longrightarrow> cs \<noteq> [] \<Longrightarrow> length cs \<le> k \<Longrightarrow>
     chainEnd k h c = Some (last cs)"
proof (induction cs arbitrary: p c k)
  case Nil
  then show ?case by simp
next
  case (Cons n cs)
  then obtain k' where k: "k = Suc k'" by (cases k) auto
  show ?case
  proof (cases "cs = []")
    case True
    with Cons.prems k show ?thesis by auto
  next
    case False
    with Cons.prems have "vnext (h n) = Some (hd cs)" "c = n"
      using seg_ends [of h "Some n" "vnext (h n)" cs q None] by auto
    with Cons.prems Cons.IH [of "Some n" "hd cs" k'] False k show ?thesis by auto
  qed
qed

lemma wellFormed_append:
  assumes "wellFormed l h ns" and "v \<notin> set ns"
  shows "\<exists>l' h'. vertexListAppend l v h = Some (l', h') \<and> wellFormed l' h' (ns @ [v])"
proof (cases "ns = []")
  case True
  with assms show ?thesis
    by (auto simp: wellFormed_def vertexListAppend_def Let_def set_vprev_def set_vnext_def)
next
  case False
  from assms have s: "listSegment h None (head l) ns (tail l) None" and d: "distinct ns"
    by (simp_all add: wellFormed_def)
  from seg_ends [OF s False] have e: "head l = Some (hd ns)" "tail l = Some (last ns)" by simp_all
  let ?h1 = "set_vnext h (last ns) (Some v)"
  let ?h3 = "set_vnext (set_vprev ?h1 v (Some (last ns))) v None"
  have r: "vertexListAppend l v h = Some (l\<lparr>tail := Some v\<rparr>, ?h3)"
    using e by (simp add: vertexListAppend_def Let_def)
  have "listSegment ?h1 None (head l) ns (tail l) (Some v)"
    using seg_set_next_last [OF s False d] .
  then have "listSegment ?h3 None (head l) ns (Some (last ns)) (Some v)"
    using assms(2) e by simp
  moreover have "listSegment ?h3 (Some (last ns)) (Some v) [v] (Some v) None"
    by (simp add: set_vprev_def set_vnext_def)
  ultimately have "listSegment ?h3 None (head l) (ns @ [v]) (Some v) None"
    unfolding seg_append by blast
  then have "wellFormed (l\<lparr>tail := Some v\<rparr>) ?h3 (ns @ [v])"
    using d assms(2) by (simp add: wellFormed_def)
  with r show ?thesis by blast
qed

lemma wellFormed_appendChain:
  assumes "wellFormed l h ns" and "listSegment h p0 (Some c) cs q None" and "cs \<noteq> []"
    and "distinct cs" and "set cs \<inter> set ns = {}" and "length cs \<le> k"
  shows "\<exists>l' h'. vertexListAppendChain k l c h = Some (l', h') \<and> wellFormed l' h' (ns @ cs)"
proof -
  from assms(2,3) obtain cs' where cs: "cs = c # cs'" by (cases cs) auto
  from assms(1) have s: "listSegment h None (head l) ns (tail l) None" and d: "distinct ns"
    by (simp_all add: wellFormed_def)
  have cn: "c \<notin> set ns" "c \<notin> set cs'" using assms(4,5) cs by auto
  show ?thesis
  proof (cases "ns = []")
    case True
    with s have e: "head l = None" "tail l = None" by simp_all
    let ?h2 = "set_vprev h c None"
    have seg: "listSegment ?h2 None (Some c) cs q None"
      using seg_set_prev_first [of h p0 "Some c" c cs' q None None] assms(2) cn cs by simp
    from chainEnd_segment [OF seg assms(3,6)]
    have r: "vertexListAppendChain k l c h = Some (l\<lparr>head := Some c, tail := Some (last cs)\<rparr>, ?h2)"
      using e by (simp add: vertexListAppendChain_def Let_def)
    from seg_ends [OF seg assms(3)] seg
    have "listSegment ?h2 None (Some c) cs (Some (last cs)) None" by simp
    then have "wellFormed (l\<lparr>head := Some c, tail := Some (last cs)\<rparr>) ?h2 (ns @ cs)"
      using True assms(4) by (simp add: wellFormed_def)
    with r show ?thesis by blast
  next
    case False
    from seg_ends [OF s False] have e: "head l = Some (hd ns)" "tail l = Some (last ns)"
      by simp_all
    let ?h1 = "set_vnext h (last ns) (Some c)"
    let ?h2 = "set_vprev ?h1 c (Some (last ns))"
    have ln: "last ns \<notin> set cs" using assms(5) False by auto
    have "listSegment ?h1 p0 (Some c) cs q None" using assms(2) ln by simp
    then have seg: "listSegment ?h2 (Some (last ns)) (Some c) cs q None"
      using seg_set_prev_first [of ?h1 p0 "Some c" c cs' q None "Some (last ns)"] cn cs by simp
    from chainEnd_segment [OF seg assms(3,6)]
    have r: "vertexListAppendChain k l c h = Some (l\<lparr>tail := Some (last cs)\<rparr>, ?h2)"
      using e by (simp add: vertexListAppendChain_def Let_def)
    have "listSegment ?h1 None (head l) ns (tail l) (Some c)"
      using seg_set_next_last [OF s False d] .
    then have "listSegment ?h2 None (head l) ns (Some (last ns)) (Some c)"
      using cn e by simp
    moreover from seg_ends [OF seg assms(3)] seg
    have "listSegment ?h2 (Some (last ns)) (Some c) cs (Some (last cs)) None" by simp
    ultimately have "listSegment ?h2 None (head l) (ns @ cs) (Some (last cs)) None"
      unfolding seg_append by blast
    then have "wellFormed (l\<lparr>tail := Some (last cs)\<rparr>) ?h2 (ns @ cs)"
      using d assms(4,5) by (auto simp: wellFormed_def)
    with r show ?thesis by blast
  qed
qed


lemma wellFormed_insertBefore:
  assumes "wellFormed l h (xs @ t # ys)" and "v \<notin> set (xs @ t # ys)"
  shows "case vertexListInsertBefore l t v h of (l', h') \<Rightarrow> wellFormed l' h' (xs @ v # t # ys)"
proof -
  from assms(1) have d: "distinct (xs @ t # ys)"
    and s: "listSegment h None (head l) (xs @ t # ys) (tail l) None"
    by (simp_all add: wellFormed_def)
  from s obtain q' d' where
    sx: "listSegment h None (head l) xs q' d'"
    and sy: "listSegment h q' d' (t # ys) (tail l) None"
    unfolding seg_append by blast
  from sy have t: "d' = Some t" "vprev (h t) = q'"
    and sys: "listSegment h (Some t) (vnext (h t)) ys (tail l) None" by simp_all
  have vt: "v \<noteq> t" "v \<notin> set xs" "v \<notin> set ys" "t \<notin> set xs" "t \<notin> set ys"
    using assms(2) d by auto
  let ?h2 = "set_vnext (set_vprev h v q') v (Some t)"
  show ?thesis
  proof (cases "xs = []")
    case True
    with sx have q: "q' = None" and hd: "head l = Some t" using t by simp_all
    let ?h4 = "set_vprev ?h2 t (Some v)"
    have r: "vertexListInsertBefore l t v h = (l\<lparr>head := Some v\<rparr>, ?h4)"
      using t q by (simp add: vertexListInsertBefore_def Let_def set_vprev_def set_vnext_def)
    have "listSegment ?h4 (Some t) (vnext (h t)) ys (tail l) None"
      using sys vt by simp
    then have "listSegment ?h4 None (Some v) (v # t # ys) (tail l) None"
      using vt q by (simp add: set_vprev_def set_vnext_def)
    then show ?thesis using r True d vt by (simp add: wellFormed_def)
  next
    case False
    from seg_ends [OF sx False] have q: "q' = Some (last xs)" and hd: "head l = Some (hd xs)"
      by simp_all
    have "last xs \<in> set xs" using False by simp
    then have lx: "last xs \<noteq> v" "last xs \<noteq> t" "last xs \<notin> set ys"
      using vt d by auto
    let ?h3 = "set_vnext ?h2 (last xs) (Some v)"
    let ?h4 = "set_vprev ?h3 t (Some v)"
    have r: "vertexListInsertBefore l t v h = (l, ?h4)"
      using t q by (simp add: vertexListInsertBefore_def Let_def set_vprev_def set_vnext_def)
    have dx: "distinct xs" using d by simp
    have "listSegment ?h2 None (head l) xs q' d'" using sx vt by simp
    from seg_set_next_last [OF this False dx]
    have "listSegment ?h3 None (head l) xs q' (Some v)" .
    then have a: "listSegment ?h4 None (head l) xs (Some (last xs)) (Some v)"
      using vt q by simp
    have "listSegment ?h4 (Some t) (vnext (h t)) ys (tail l) None"
      using sys vt lx by simp
    then have b: "listSegment ?h4 (Some (last xs)) (Some v) (v # t # ys) (tail l) None"
      using vt lx q by (simp add: set_vprev_def set_vnext_def)
    from a b have "listSegment ?h4 None (head l) (xs @ v # t # ys) (tail l) None"
      unfolding seg_append by blast
    then show ?thesis using r d vt by (simp add: wellFormed_def)
  qed
qed

lemma wellFormed_removeSubList:
  assumes "wellFormed l h (xs @ cs @ ys)" and "cs \<noteq> []"
  shows "case vertexListRemoveSubList l (hd cs) (last cs) h of
           (l', h') \<Rightarrow> wellFormed l' h' (xs @ ys)"
proof -
  from assms(1) have d: "distinct (xs @ cs @ ys)"
    and s: "listSegment h None (head l) (xs @ cs @ ys) (tail l) None"
    by (simp_all add: wellFormed_def)
  from s obtain q1 d1 q2 d2 where
    sx: "listSegment h None (head l) xs q1 d1"
    and sc: "listSegment h q1 d1 cs q2 d2"
    and sy: "listSegment h q2 d2 ys (tail l) None"
    unfolding seg_append by blast
  from seg_ends [OF sc assms(2)]
  have c: "d1 = Some (hd cs)" "q2 = Some (last cs)" "vnext (h (last cs)) = d2"
    "vprev (h (hd cs)) = q1" by simp_all
  have dx: "distinct xs" and dy: "distinct ys" and xy: "set xs \<inter> set ys = {}"
    using d by auto
  have cx: "hd cs \<notin> set xs" "last cs \<notin> set xs" "hd cs \<notin> set ys" "last cs \<notin> set ys"
    using d assms(2) by (auto simp: disjoint_iff)
  show ?thesis
  proof (cases "xs = []")
    case xe: True
    with sx have q1: "q1 = None" and hd: "head l = d1" by simp_all
    show ?thesis
    proof (cases "ys = []")
      case ye: True
      with sy have "d2 = None" by simp
      then have "vertexListRemoveSubList l (hd cs) (last cs) h
                   = (l\<lparr>head := None, tail := None\<rparr>, h)"
        using c q1 by (simp add: vertexListRemoveSubList_def Let_def)
      then show ?thesis using xe ye by (simp add: wellFormed_def)
    next
      case yn: False
      from seg_ends [OF sy yn] have y: "d2 = Some (hd ys)" by simp
      obtain y ys' where ys: "ys = y # ys'" using yn by (cases ys) auto
      have r: "vertexListRemoveSubList l (hd cs) (last cs) h
                 = (l\<lparr>head := Some y\<rparr>, set_vprev h y None)"
        using c q1 y ys by (simp add: vertexListRemoveSubList_def Let_def)
      have "listSegment (set_vprev h y None) None (Some y) (y # ys') (tail l) None"
        using seg_set_prev_first [of h q2 d2 y ys' "tail l" None None] sy ys dy y by simp
      then show ?thesis using r xe ys dy by (simp add: wellFormed_def)
    qed
  next
    case xn: False
    from seg_ends [OF sx xn] have q1: "q1 = Some (last xs)" by simp
    have lx: "last xs \<notin> set ys" "last xs \<notin> set cs" using xn d by (auto simp: disjoint_iff)
    let ?h1 = "set_vnext h (last xs) d2"
    have sx1: "listSegment ?h1 None (head l) xs q1 d2"
      using seg_set_next_last [OF sx xn dx] .
    have rd: "vnext (?h1 (last cs)) = d2" "vprev (?h1 (hd cs)) = q1"
      using c lx assms(2) by (auto simp: set_vnext_def)
    show ?thesis
    proof (cases "ys = []")
      case ye: True
      with sy have d2: "d2 = None" by simp
      have r: "vertexListRemoveSubList l (hd cs) (last cs) h
                 = (l\<lparr>tail := Some (last xs)\<rparr>, ?h1)"
        using c q1 d2 rd by (simp add: vertexListRemoveSubList_def Let_def)
      have "listSegment ?h1 None (head l) xs (Some (last xs)) None"
        using sx1 q1 d2 by simp
      then show ?thesis using r ye dx by (simp add: wellFormed_def)
    next
      case yn: False
      from seg_ends [OF sy yn] have y: "d2 = Some (hd ys)" by simp
      obtain y ys' where ys: "ys = y # ys'" using yn by (cases ys) auto
      have yx: "y \<notin> set xs" "y \<notin> set ys'" using xy dy ys by auto
      let ?h2 = "set_vprev ?h1 y q1"
      have r: "vertexListRemoveSubList l (hd cs) (last cs) h = (l, ?h2)"
        using c q1 y ys rd by (simp add: vertexListRemoveSubList_def Let_def)
      have a: "listSegment ?h2 None (head l) xs q1 (Some y)"
        using sx1 yx y ys by simp
      have "listSegment ?h1 q2 d2 (y # ys') (tail l) None"
        using sy lx ys by (simp add: set_vnext_def seg_frame)
      from seg_set_prev_first [OF this yx(2), of q1]
      have b: "listSegment ?h2 q1 (Some y) (y # ys') (tail l) None"
        using y ys by simp
      from a b have "listSegment ?h2 None (head l) (xs @ ys) (tail l) None"
        unfolding seg_append ys by blast
      then show ?thesis using r dx dy xy by (simp add: wellFormed_def)
    qed
  qed
qed

lemma vertexListRemove_as_subList:
  "vertexListRemove l v h = vertexListRemoveSubList l v v h"
  by (simp add: vertexListRemove_def vertexListRemoveSubList_def)

lemma wellFormed_remove:
  assumes "wellFormed l h (xs @ v # ys)"
  shows "case vertexListRemove l v h of (l', h') \<Rightarrow> wellFormed l' h' (xs @ ys)"
  using wellFormed_removeSubList [of l h xs "[v]" ys] assms
  by (simp add: vertexListRemove_as_subList)


text \<open>C6. A vertex list is well formed with the node sequence \<open>ns\<close> when the nodes are
  distinct, \<open>head\<close> is the first and \<open>tail\<close> the last of them (both \<open>undefined\<close> when
  there is none), the first has no \<open>prev\<close>, the last has no \<open>next\<close>, and \<open>next\<close> and
  \<open>prev\<close> of neighbours point at each other. Each of the five operations takes a
  well-formed list to a well-formed list: \<open>append\<close> of a vertex that is not in the list,
  \<open>appendChain\<close> of a linked run of vertices that are not in the list, \<open>insertBefore\<close> a
  member of a vertex that is not in the list, \<open>remove\<close> of a member and \<open>removeSubList\<close>
  of a run of members. The sequences may be empty, so the empty list, the list of one
  element, and the removal of the head and of the tail are covered.\<close>

theorem vertex_list_operations_keep_wellFormed:
  "(wellFormed l h ns \<and> v \<notin> set ns \<longrightarrow>
      (\<exists>l' h'. vertexListAppend l v h = Some (l', h') \<and> wellFormed l' h' (ns @ [v]))) \<and>
   (wellFormed l h ns \<and> listSegment h p0 (Some c) cs q None \<and> cs \<noteq> [] \<and> distinct cs \<and>
    set cs \<inter> set ns = {} \<and> length cs \<le> k \<longrightarrow>
      (\<exists>l' h'. vertexListAppendChain k l c h = Some (l', h') \<and> wellFormed l' h' (ns @ cs))) \<and>
   (wellFormed l h (xs @ t # ys) \<and> v \<notin> set (xs @ t # ys) \<longrightarrow>
      (case vertexListInsertBefore l t v h of
         (l', h') \<Rightarrow> wellFormed l' h' (xs @ v # t # ys))) \<and>
   (wellFormed l h (xs @ v # ys) \<longrightarrow>
      (case vertexListRemove l v h of (l', h') \<Rightarrow> wellFormed l' h' (xs @ ys))) \<and>
   (wellFormed l h (xs @ cs @ ys) \<and> cs \<noteq> [] \<longrightarrow>
      (case vertexListRemoveSubList l (hd cs) (last cs) h of
         (l', h') \<Rightarrow> wellFormed l' h' (xs @ ys)))"
proof (intro conjI impI; (elim conjE)?)
  show "wellFormed l h ns \<Longrightarrow> v \<notin> set ns \<Longrightarrow>
      \<exists>l' h'. vertexListAppend l v h = Some (l', h') \<and> wellFormed l' h' (ns @ [v])"
    by (rule wellFormed_append)
  show "wellFormed l h ns \<Longrightarrow> listSegment h p0 (Some c) cs q None \<Longrightarrow> cs \<noteq> [] \<Longrightarrow>
      distinct cs \<Longrightarrow> set cs \<inter> set ns = {} \<Longrightarrow> length cs \<le> k \<Longrightarrow>
      \<exists>l' h'. vertexListAppendChain k l c h = Some (l', h') \<and> wellFormed l' h' (ns @ cs)"
    by (rule wellFormed_appendChain)
  show "wellFormed l h (xs @ t # ys) \<Longrightarrow> v \<notin> set (xs @ t # ys) \<Longrightarrow>
      case vertexListInsertBefore l t v h of (l', h') \<Rightarrow> wellFormed l' h' (xs @ v # t # ys)"
    by (rule wellFormed_insertBefore)
  show "wellFormed l h (xs @ v # ys) \<Longrightarrow>
      case vertexListRemove l v h of (l', h') \<Rightarrow> wellFormed l' h' (xs @ ys)"
    by (rule wellFormed_remove)
  show "wellFormed l h (xs @ cs @ ys) \<Longrightarrow> cs \<noteq> [] \<Longrightarrow>
      case vertexListRemoveSubList l (hd cs) (last cs) h of
        (l', h') \<Rightarrow> wellFormed l' h' (xs @ ys)"
    by (rule wellFormed_removeSubList)
qed

text \<open>The list \<open>0, 1, 2\<close> and the loose chain \<open>3, 4\<close>: appending to the empty list,
  appending the chain, inserting before the head, removing the head, removing the tail,
  removing the only element of a list of one, and removing the whole list as a run.\<close>

lemma threeList_wellFormed: "wellFormed threeList threeStore [0, 1, 2]"
  by (simp add: wellFormed_def threeList_def threeStore_def)

lemma emptyList_wellFormed: "wellFormed createVertexList createVertexNode []"
  by (simp add: wellFormed_def createVertexList_def)

lemma oneList_wellFormed:
  "wellFormed \<lparr>head = Some 0, tail = Some 0\<rparr> createVertexNode [0]"
  by (simp add: wellFormed_def createVertexNode_def)

lemma threeStore_chain: "listSegment threeStore None (Some 3) [3, 4] (Some 4) None"
  by (simp add: threeStore_def)

theorem vertex_list_operations_keep_wellFormed_witness:
  "wellFormed threeList threeStore [0, 1, 2] \<and>
   (\<exists>l' h'. vertexListAppend createVertexList 0 createVertexNode = Some (l', h') \<and>
            wellFormed l' h' [0]) \<and>
   (\<exists>l' h'. vertexListAppendChain 2 threeList 3 threeStore = Some (l', h') \<and>
            wellFormed l' h' [0, 1, 2, 3, 4]) \<and>
   (case vertexListInsertBefore threeList 0 3 threeStore of
      (l', h') \<Rightarrow> wellFormed l' h' [3, 0, 1, 2]) \<and>
   (case vertexListRemove threeList 0 threeStore of (l', h') \<Rightarrow> wellFormed l' h' [1, 2]) \<and>
   (case vertexListRemove threeList 2 threeStore of (l', h') \<Rightarrow> wellFormed l' h' [0, 1]) \<and>
   (case vertexListRemove \<lparr>head = Some 0, tail = Some 0\<rparr> 0 createVertexNode of
      (l', h') \<Rightarrow> wellFormed l' h' []) \<and>
   (case vertexListRemoveSubList threeList 0 2 threeStore of
      (l', h') \<Rightarrow> wellFormed l' h' [])"
proof -
  note w = threeList_wellFormed
  have a: "\<exists>l' h'. vertexListAppend createVertexList 0 createVertexNode = Some (l', h') \<and>
            wellFormed l' h' ([] @ [0])"
    using vertex_list_operations_keep_wellFormed
      [of createVertexList createVertexNode "[]" 0] emptyList_wellFormed
    by simp
  have b: "\<exists>l' h'. vertexListAppendChain 2 threeList 3 threeStore = Some (l', h') \<and>
            wellFormed l' h' ([0, 1, 2] @ [3, 4])"
    using vertex_list_operations_keep_wellFormed
      [of threeList threeStore "[0, 1, 2]" _ None 3 "[3, 4]" "Some 4" 2] w threeStore_chain
    by simp
  have c: "case vertexListInsertBefore threeList 0 3 threeStore of
      (l', h') \<Rightarrow> wellFormed l' h' ([] @ 3 # 0 # [1, 2])"
    using vertex_list_operations_keep_wellFormed
      [of threeList threeStore _ 3 _ _ _ _ _ "[]" 0 "[1, 2]"] w
    by simp
  have d: "case vertexListRemove threeList 0 threeStore of
      (l', h') \<Rightarrow> wellFormed l' h' ([] @ [1, 2])"
    using vertex_list_operations_keep_wellFormed
      [of threeList threeStore _ 0 _ _ _ _ _ "[]" _ "[1, 2]"] w
    by simp
  have e: "case vertexListRemove threeList 2 threeStore of
      (l', h') \<Rightarrow> wellFormed l' h' ([0, 1] @ [])"
    using vertex_list_operations_keep_wellFormed
      [of threeList threeStore _ 2 _ _ _ _ _ "[0, 1]" _ "[]"] w
    by simp
  have f: "case vertexListRemove \<lparr>head = Some 0, tail = Some 0\<rparr> 0 createVertexNode of
      (l', h') \<Rightarrow> wellFormed l' h' ([] @ [])"
    using vertex_list_operations_keep_wellFormed
      [of "\<lparr>head = Some 0, tail = Some 0\<rparr>" createVertexNode _ 0 _ _ _ _ _ "[]" _ "[]"]
      oneList_wellFormed
    by simp
  have g: "case vertexListRemoveSubList threeList (hd [0, 1, 2]) (last [0, 1, 2]) threeStore of
      (l', h') \<Rightarrow> wellFormed l' h' ([] @ [])"
    using vertex_list_operations_keep_wellFormed
      [of threeList threeStore _ _ _ _ "[0, 1, 2]" _ _ "[]" _ "[]"] w
    by simp
  from w a b c d e f g show ?thesis by simp
qed

section \<open>Runs of the hull builder\<close>

subsection \<open>Coplanar points\<close>


subsection \<open>A point next to an edge\<close>

text \<open>The run on \<open>edgePoints\<close>: the initial tetrahedron has the faces 0 to 3; the fifth point
  is assigned to face 1 (the plane \<open>y = 0\<close>), the only face it lies outside of by more than the
  tolerance. Its insertion deletes face 1 alone and puts the faces 4, 5, 6 on the three edges
  of face 1. Face 6 is the triangle of the points 4, 1, 0; it is tilted against the face
  \<open>z = 0\<close>, which stays in the hull, and the point 2 is far outside it. The half-edges 3, 4, 5
  of the deleted face keep their twins, which now belong to the new faces.\<close>

lemma buildHull_edgePoints:
  "\<exists>st. buildHull (Suc (Suc (Suc (Suc (Suc k))))) edgePoints = Some st \<and>
     getTriangleIndices st = Some [0, 1, 2,  3, 2, 1,  3, 0, 2,  4, 0, 3,  4, 3, 1,  4, 1, 0] \<and>
     triangleStep st 6 [] = Some [4, 1, 0] \<and>
     tolerance st = 6000000 / 2 ^ 52 \<and>
     (\<exists>d. vertexDistance st 6 2 = Some d \<and> 190000 < d) \<and>
     nhedges st = 21 \<and> eface (hedges st 3) = 1 \<and> mark (fobjs st 1) = DELETED \<and>
     twin (hedges st 3) = Some 10 \<and> twin (hedges st 10) = Some 14"
  apply (simp add: eval_defs vertexDistance_def edgePoints_length edgePoints_nth sqrt_edge_face
      del: horizonLoop.simps(2) resolveScan.simps(2) resolveLoop.simps(3)
      cong: bind_weak_cong let_weak_cong)
  apply (rule exI [of _ "2500000 / 13"])
  apply simp
  done

text \<open>C1, at the input \<open>edgePoints\<close>. \<open>quickhull3\<close> returns six triangles; the last one is
  the face 6 of the final hull state, with the vertices 4, 1, 0. The input point 2 is not a
  vertex of it, and its signed distance to the plane of this face, as \<open>faceDistanceToPoint\<close>
  computes it, is above 190000, while the tolerance of the run is \<open>6\<cdot>10\<^sup>6 / 2\<^sup>5\<^sup>2\<close>.\<close>

theorem quickhull3_edgePoints_not_convex:
  "quickhull3 (Suc (Suc (Suc (Suc (Suc k))))) edgePoints =
     Some [0, 1, 2,  3, 2, 1,  3, 0, 2,  4, 0, 3,  4, 3, 1,  4, 1, 0] \<and>
   (\<exists>st d. buildHull (Suc (Suc (Suc (Suc (Suc k))))) edgePoints = Some st \<and>
      triangleStep st 6 [] = Some [4, 1, 0] \<and>
      vertexDistance st 6 2 = Some d \<and> 190000 < d \<and> tolerance st = 6000000 / 2 ^ 52)"
  using buildHull_edgePoints [of k] by (auto simp: quickhull3_def edgePoints_length)
end
